theory Spec2Isabelle
  imports
    Complex_Main
    "HOL-Library.List_Lexorder"
    "HOL-Library.Char_ord"
    "HOL-Library.Multiset"
    "HOL-Library.AList"
begin

section \<open>Numbers, readings and patients\<close>

text \<open>
  The dashboard of \<^verbatim>\<open>src/App.jsx\<close> keeps a list of patients, each with a bounded history
  of vitals readings. JavaScript numbers are modelled as real numbers with exact arithmetic;
  \<^verbatim>\<open>Math.random()\<close> is a sequence of draws \<open>rnd 0, rnd 1, \<dots>\<close> consumed in the order of
  the calls, and the clock and its formatting are parameters.
\<close>

text \<open>\<^verbatim>\<open>Math.round\<close> rounds to the nearest integer, a half towards plus infinity.\<close>

definition Math_round :: "real \<Rightarrow> real" where
  "Math_round x = real_of_int \<lfloor>x + 1 / 2\<rfloor>"

text \<open>\<^verbatim>\<open>Number.isInteger\<close>.\<close>

definition isInteger :: "real \<Rightarrow> bool" where
  "isInteger x = (real_of_int \<lfloor>x\<rfloor> = x)"

record reading =
  time :: string
  spo2 :: real
  hr :: real
  bp :: real

text \<open>
  A patient object. The simulation reads \<^verbatim>\<open>p.vitals?.spo2\<close> and \<^verbatim>\<open>p.history || []\<close>, so
  both fields may be missing: \<open>None\<close> is \<^verbatim>\<open>undefined\<close>.
\<close>

record patient =
  id' :: string
  name :: string
  age :: nat
  ward :: string
  notes' :: string
  history :: "reading list option"
  vitals :: "reading option"
  avatarColor :: string

section \<open>Severity\<close>

definition severityScore :: "real \<Rightarrow> nat" where
  "severityScore s =
     (if s \<ge> 95 then 0
      else if s \<ge> 90 then 1
      else if s \<ge> 85 then 2
      else 3)"

section \<open>Seed generation\<close>

text \<open>Decimal rendering of a number inside a template literal.\<close>

fun decimal :: "nat \<Rightarrow> string" where
  "decimal n =
     (if n < 10 then [''0123456789'' ! n]
      else decimal (n div 10) @ [''0123456789'' ! (n mod 10)])"

declare decimal.simps [simp del]

text \<open>
  Reading \<open>idx\<close> of patient \<open>i\<close>: every reading makes three draws (oxygen, heart rate, blood
  pressure), every patient eight readings, so the first draw of this reading is number
  \<open>24 * i + 3 * idx\<close>. \<open>now\<close> is the clock (in milliseconds) read for the patient and
  \<open>fmt\<close> renders a time as hours and minutes.
\<close>

definition seedReading :: "(nat \<Rightarrow> real) \<Rightarrow> int \<Rightarrow> (int \<Rightarrow> string) \<Rightarrow> nat \<Rightarrow> nat \<Rightarrow> reading" where
  "seedReading rnd now fmt i idx =
     (let base = 95 - real (i mod 4);
          t = now - (7 - int idx) * 1000 * 60 * 5;
          k = 24 * i + 3 * idx
      in \<lparr> time = fmt t,
           spo2 = max 80 (min 100 (base + (rnd k * 4 - 2))),
           hr = Math_round (65 + rnd (k + 1) * 20),
           bp = 110 + Math_round (rnd (k + 2) * 30) \<rparr>)"

definition seedId :: "nat \<Rightarrow> string" where
  "seedId i = ''PT-'' @ decimal (1000 + i)"

definition seedPatient :: "(nat \<Rightarrow> real) \<Rightarrow> (nat \<Rightarrow> int) \<Rightarrow> (int \<Rightarrow> string) \<Rightarrow> nat \<Rightarrow> patient" where
  "seedPatient rnd now fmt i =
     (let h = map (seedReading rnd (now i) fmt i) [0..<8]
      in \<lparr> id' = seedId i,
           name = ''Patient '' @ decimal (i + 1),
           age = 28 + ((i * 7) mod 25),
           ward = ''General'',
           notes' = '''',
           history = Some h,
           vitals = (if h = [] then None else Some (h ! (length h - 1))),
           avatarColor = [''bg-indigo-500'', ''bg-rose-500'', ''bg-emerald-500'', ''bg-sky-500''] ! (i mod 4) \<rparr>)"

definition makeInitialPatients :: "(nat \<Rightarrow> real) \<Rightarrow> (nat \<Rightarrow> int) \<Rightarrow> (int \<Rightarrow> string) \<Rightarrow> patient list" where
  "makeInitialPatients rnd now fmt = map (seedPatient rnd now fmt) [0..<10]"

section \<open>The simulation step\<close>

text \<open>The oxygen step of the random walk, from one draw.\<close>

definition spo2Delta :: "real \<Rightarrow> real" where
  "spo2Delta r = Math_round ((r - 65 / 100) * 4)"

text \<open>
  One patient's update from the three draws \<open>r1\<close>, \<open>r2\<close>, \<open>r3\<close> and the time label
  \<open>lbl\<close>. \<^verbatim>\<open>?? 97\<close> replaces a missing value only; \<^verbatim>\<open>|| 70\<close> and \<^verbatim>\<open>|| 120\<close> also replace
  the falsy number 0.
\<close>

definition newPoint :: "real \<Rightarrow> real \<Rightarrow> real \<Rightarrow> string \<Rightarrow> patient \<Rightarrow> reading" where
  "newPoint r1 r2 r3 lbl p =
     (let prevSpo2 = (case vitals p of None \<Rightarrow> 97 | Some v \<Rightarrow> spo2 v);
          delta = spo2Delta r1;
          nextSpo2 = max 60 (min 100 (prevSpo2 + delta));
          prevHr = (case vitals p of None \<Rightarrow> 70 | Some v \<Rightarrow> if hr v = 0 then 70 else hr v);
          nextHr = max 45 (min 140 (Math_round (prevHr + (r2 * 6 - 3))));
          prevBp = (case vitals p of None \<Rightarrow> 120 | Some v \<Rightarrow> if bp v = 0 then 120 else bp v);
          nextBp = max 80 (min 200 (Math_round (prevBp + (r3 * 6 - 3))))
      in \<lparr> time = lbl, spo2 = nextSpo2, hr = nextHr, bp = nextBp \<rparr>)"

text \<open>\<^verbatim>\<open>xs.slice(-n)\<close>: the last \<open>n\<close> elements, all of them when there are fewer.\<close>

definition slice_last :: "nat \<Rightarrow> 'a list \<Rightarrow> 'a list" where
  "slice_last n xs = drop (length xs - n) xs"

definition tickPatient :: "real \<Rightarrow> real \<Rightarrow> real \<Rightarrow> string \<Rightarrow> patient \<Rightarrow> patient" where
  "tickPatient r1 r2 r3 lbl p =
     (let np = newPoint r1 r2 r3 lbl p;
          h = slice_last 16 ((case history p of None \<Rightarrow> [] | Some xs \<Rightarrow> xs) @ [np])
      in p\<lparr> vitals := Some np, history := Some h \<rparr>)"

text \<open>
  \<^verbatim>\<open>prev.map(...)\<close>: the patient at position \<open>k\<close> uses the draws \<open>3k\<close>, \<open>3k+1\<close>, \<open>3k+2\<close>
  and the label \<open>lbl k\<close>.
\<close>

fun tickFrom :: "(nat \<Rightarrow> real) \<Rightarrow> (nat \<Rightarrow> string) \<Rightarrow> nat \<Rightarrow> patient list \<Rightarrow> patient list" where
  "tickFrom rnd lbl k [] = []"
| "tickFrom rnd lbl k (p # ps) =
     tickPatient (rnd (3 * k)) (rnd (3 * k + 1)) (rnd (3 * k + 2)) (lbl k) p
       # tickFrom rnd lbl (Suc k) ps"

definition simulateVitalsUpdate :: "(nat \<Rightarrow> real) \<Rightarrow> (nat \<Rightarrow> string) \<Rightarrow> patient list \<Rightarrow> patient list" where
  "simulateVitalsUpdate rnd lbl prev = tickFrom rnd lbl 0 prev"

section \<open>Ordering the collection\<close>

text \<open>
  \<^verbatim>\<open>a.id.localeCompare(b.id)\<close> is the platform's collation of two identifiers: negative, zero or
  positive. The source does not fix it, so it is the parameter \<open>coll\<close> of the comparator and of
  the step.
\<close>

text \<open>
  The comparator of the sort:
  \<^verbatim>\<open>severityScore(b.vitals.spo2) - severityScore(a.vitals.spo2) || a.id.localeCompare(b.id)\<close>.
  Reading \<^verbatim>\<open>.spo2\<close> of missing vitals throws; that is the result \<open>None\<close>.
\<close>

definition cmpPatients :: "(string \<Rightarrow> string \<Rightarrow> int) \<Rightarrow> patient \<Rightarrow> patient \<Rightarrow> int option" where
  "cmpPatients coll a b =
     (case vitals b of
        None \<Rightarrow> None
      | Some vb \<Rightarrow>
          (case vitals a of
             None \<Rightarrow> None
           | Some va \<Rightarrow>
               (let d = int (severityScore (spo2 vb)) - int (severityScore (spo2 va))
                in Some (if d \<noteq> 0 then d else coll (id' a) (id' b)))))"

text \<open>
  \<^verbatim>\<open>Array.prototype.sort\<close> with a comparator is a stable sort; it is modelled as the stable
  insertion sort, which fails when the comparator throws.
\<close>

fun insertBy :: "('a \<Rightarrow> 'a \<Rightarrow> int option) \<Rightarrow> 'a \<Rightarrow> 'a list \<Rightarrow> 'a list option" where
  "insertBy cmp x [] = Some [x]"
| "insertBy cmp x (y # ys) =
     (case cmp x y of
        None \<Rightarrow> None
      | Some c \<Rightarrow>
          if c \<le> 0 then Some (x # y # ys)
          else (case insertBy cmp x ys of None \<Rightarrow> None | Some r \<Rightarrow> Some (y # r)))"

fun sort' :: "('a \<Rightarrow> 'a \<Rightarrow> int option) \<Rightarrow> 'a list \<Rightarrow> 'a list option" where
  "sort' cmp [] = Some []"
| "sort' cmp (x # xs) =
     (case sort' cmp xs of None \<Rightarrow> None | Some ys \<Rightarrow> insertBy cmp x ys)"

text \<open>The state update of the timer: simulate, then sort.\<close>

definition tick ::
  "(string \<Rightarrow> string \<Rightarrow> int) \<Rightarrow> (nat \<Rightarrow> real) \<Rightarrow> (nat \<Rightarrow> string) \<Rightarrow> patient list
     \<Rightarrow> patient list option" where
  "tick coll rnd lbl prev = sort' (cmpPatients coll) (simulateVitalsUpdate rnd lbl prev)"

text \<open>
  The order the collection is meant to have: \<open>a\<close> may stand before \<open>b\<close> when \<open>a\<close> is more
  severe, or as severe with an identifier that is not greater in the lexicographic order of the
  character codes.
\<close>

definition inOrder :: "patient \<Rightarrow> patient \<Rightarrow> bool" where
  "inOrder a b =
     (case (vitals a, vitals b) of
        (Some va, Some vb) \<Rightarrow>
          severityScore (spo2 vb) < severityScore (spo2 va)
          \<or> (severityScore (spo2 va) = severityScore (spo2 vb) \<and> id' a \<le> id' b)
      | _ \<Rightarrow> False)"

text \<open>
  The format of the identifiers the seed creates: \<^verbatim>\<open>PT-\<close> followed by decimal digits.
\<close>

definition seedFormat :: "string \<Rightarrow> bool" where
  "seedFormat s =
     (take 3 s = ''PT-'' \<and> drop 3 s \<noteq> []
      \<and> list_all (\<lambda>c. c \<in> set ''0123456789'') (drop 3 s))"

text \<open>
  A collation orders two strings lexicographically when its sign is that of the comparison of
  their character codes.
\<close>

definition lexOn :: "(string \<Rightarrow> string \<Rightarrow> int) \<Rightarrow> string \<Rightarrow> string \<Rightarrow> bool" where
  "lexOn coll a b = ((coll a b < 0 \<longleftrightarrow> a < b) \<and> (coll a b = 0 \<longleftrightarrow> a = b))"

section \<open>Editing notes and ward\<close>

text \<open>
  The patch of \<^verbatim>\<open>updateMeta(id, patch)\<close>: its callers pass \<^verbatim>\<open>{ notes }\<close> or \<^verbatim>\<open>{ ward }\<close>.
\<close>

record patch =
  patch_notes :: "string option"
  patch_ward :: "string option"

definition spreadPatch :: "patient \<Rightarrow> patch \<Rightarrow> patient" where
  "spreadPatch p pt =
     (let p1 = (case patch_notes pt of None \<Rightarrow> p | Some n \<Rightarrow> p\<lparr> notes' := n \<rparr>)
      in (case patch_ward pt of None \<Rightarrow> p1 | Some w \<Rightarrow> p1\<lparr> ward := w \<rparr>))"

definition updateMeta :: "string \<Rightarrow> patch \<Rightarrow> patient list \<Rightarrow> patient list" where
  "updateMeta i pt prev = map (\<lambda>p. if id' p = i then spreadPatch p pt else p) prev"

section \<open>Properties of readings and patients\<close>

text \<open>The invariant of a patient's readings: at most 16, and the current one is the last.\<close>

definition historyOk :: "patient \<Rightarrow> bool" where
  "historyOk p =
     (case history p of
        None \<Rightarrow> False
      | Some h \<Rightarrow> length h \<le> 16 \<and> h \<noteq> [] \<and> vitals p = Some (last h))"

text \<open>The clamps of the three vitals.\<close>

definition inClamps :: "reading \<Rightarrow> bool" where
  "inClamps v = (60 \<le> spo2 v \<and> spo2 v \<le> 100 \<and> 45 \<le> hr v \<and> hr v \<le> 140
                 \<and> 80 \<le> bp v \<and> bp v \<le> 200)"

section \<open>Stored metadata\<close>

text \<open>What \<^verbatim>\<open>JSON.parse\<close> returns.\<close>

datatype json =
  JNull
| JBool bool
| JNum real
| JStr string
| JArr "json list"
| JObj "(string \<times> json) list"

datatype error = SyntaxError | TypeError

text \<open>
  A string of the key-value store is represented by what the initializer does with it:
  the empty string is falsy, any other string either makes \<^verbatim>\<open>JSON.parse\<close> throw or parses to
  a value. \<^verbatim>\<open>JSON.stringify\<close> of a value is the well-formed string of that value.
\<close>

datatype item = EmptyString | Malformed | Wellformed json

type_synonym storage = "string \<rightharpoonup> item"

definition STORAGE_KEY :: string where
  "STORAGE_KEY = ''dp_v2_patients_meta_v1''"

text \<open>
  An object is the map from its property names to their values. The members of a parsed
  object are set in the order of the text, so a later member wins.
\<close>

type_synonym object = "string \<rightharpoonup> json"

definition props :: "(string \<times> json) list \<Rightarrow> object" where
  "props kvs = map_of (rev kvs)"

definition indexProps :: "json list \<Rightarrow> object" where
  "indexProps xs = map_of (zip (map decimal [0..<length xs]) xs)"

text \<open>
  The own enumerable properties a spread \<^verbatim>\<open>...x\<close> copies: the members of an object, the
  elements of an array and the characters of a string under their indices, nothing from
  \<^verbatim>\<open>null\<close>, a number or a boolean.
\<close>

fun ownProps :: "json \<Rightarrow> object" where
  "ownProps (JObj kvs) = props kvs"
| "ownProps (JArr xs) = indexProps xs"
| "ownProps (JStr s) = indexProps (map (\<lambda>c. JStr [c]) s)"
| "ownProps JNull = Map.empty"
| "ownProps (JBool b) = Map.empty"
| "ownProps (JNum n) = Map.empty"

text \<open>
  \<^verbatim>\<open>meta[k]\<close>: a \<^verbatim>\<open>TypeError\<close> on \<^verbatim>\<open>null\<close>, otherwise the own property or \<^verbatim>\<open>undefined\<close>
  (\<open>None\<close>). Inherited properties (methods, \<^verbatim>\<open>length\<close>) are left out: they are functions or
  numbers, from which a spread copies nothing, as from \<^verbatim>\<open>undefined\<close>.
\<close>

fun getProp :: "json \<Rightarrow> string \<Rightarrow> error + json option" where
  "getProp JNull k = Inl TypeError"
| "getProp x k = Inr (ownProps x k)"

definition readingObject :: "reading \<Rightarrow> json" where
  "readingObject v =
     JObj [(''time'', JStr (time v)), (''spo2'', JNum (spo2 v)),
           (''hr'', JNum (hr v)), (''bp'', JNum (bp v))]"

text \<open>
  A patient as an object; a missing field is a missing property. The initializer below returns
  objects rather than patient records, because a stored value can put any JSON value under any
  property name.
\<close>

definition toObject :: "patient \<Rightarrow> object" where
  "toObject p =
     (let o1 = [''id'' \<mapsto> JStr (id' p), ''name'' \<mapsto> JStr (name p),
                ''age'' \<mapsto> JNum (real (age p)), ''ward'' \<mapsto> JStr (ward p),
                ''notes'' \<mapsto> JStr (notes' p)];
          o2 = (case history p of
                  None \<Rightarrow> o1
                | Some h \<Rightarrow> o1(''history'' \<mapsto> JArr (map readingObject h)));
          o3 = (case vitals p of
                  None \<Rightarrow> o2
                | Some v \<Rightarrow> o2(''vitals'' \<mapsto> readingObject v))
      in o3(''avatarColor'' \<mapsto> JStr (avatarColor p)))"

text \<open>\<^verbatim>\<open>JSON.parse(localStorage.getItem(STORAGE_KEY) || "{}")\<close>.\<close>

definition parseStored :: "item option \<Rightarrow> error + json" where
  "parseStored s =
     (case s of
        None \<Rightarrow> Inr (JObj [])
      | Some EmptyString \<Rightarrow> Inr (JObj [])
      | Some Malformed \<Rightarrow> Inl SyntaxError
      | Some (Wellformed j) \<Rightarrow> Inr j)"

text \<open>\<^verbatim>\<open>{ ...p, ...meta[p.id] }\<close>.\<close>

definition hydrateOne :: "json \<Rightarrow> patient \<Rightarrow> error + object" where
  "hydrateOne meta p =
     (case getProp meta (id' p) of
        Inl e \<Rightarrow> Inl e
      | Inr None \<Rightarrow> Inr (toObject p)
      | Inr (Some x) \<Rightarrow> Inr (toObject p ++ ownProps x))"

text \<open>\<^verbatim>\<open>xs.map(f)\<close> where \<open>f\<close> may throw: the first exception ends the map.\<close>

fun mapE :: "('a \<Rightarrow> error + 'b) \<Rightarrow> 'a list \<Rightarrow> error + 'b list" where
  "mapE f [] = Inr []"
| "mapE f (x # xs) =
     (case f x of
        Inl e \<Rightarrow> Inl e
      | Inr y \<Rightarrow> (case mapE f xs of Inl e \<Rightarrow> Inl e | Inr ys \<Rightarrow> Inr (y # ys)))"

text \<open>
  The initializer of the patient state: seed, then hydrate inside \<^verbatim>\<open>try\<close>; any exception
  is caught and the seed is returned.
\<close>

definition hydrate :: "storage \<Rightarrow> patient list \<Rightarrow> object list" where
  "hydrate store seeded =
     (case parseStored (store STORAGE_KEY) of
        Inl e \<Rightarrow> map toObject seeded
      | Inr meta \<Rightarrow>
          (case mapE (hydrateOne meta) seeded of
             Inl e \<Rightarrow> map toObject seeded
           | Inr ps \<Rightarrow> ps))"

definition initialPatients ::
  "storage \<Rightarrow> (nat \<Rightarrow> real) \<Rightarrow> (nat \<Rightarrow> int) \<Rightarrow> (int \<Rightarrow> string) \<Rightarrow> object list" where
  "initialPatients store rnd now fmt = hydrate store (makeInitialPatients rnd now fmt)"

text \<open>
  \<^verbatim>\<open>Object.fromEntries\<close>: a repeated key keeps its first position and takes the later value.
\<close>

definition fromEntries :: "(string \<times> json) list \<Rightarrow> (string \<times> json) list" where
  "fromEntries es = fold (\<lambda>(k, v) acc. AList.update k v acc) es []"

text \<open>The effect that writes the notes and wards of all patients back to the store.\<close>

definition metaEntry :: "patient \<Rightarrow> string \<times> json" where
  "metaEntry p = (id' p, JObj [(''notes'', JStr (notes' p)), (''ward'', JStr (ward p))])"

definition persistMeta :: "patient list \<Rightarrow> storage \<Rightarrow> storage" where
  "persistMeta patients store =
     store(STORAGE_KEY \<mapsto> Wellformed (JObj (fromEntries (map metaEntry patients))))"

text \<open>
  A stored value of the shape the effect writes: an object whose members are objects with no
  property other than \<^verbatim>\<open>notes\<close> and \<^verbatim>\<open>ward\<close>.
\<close>

definition metaShaped :: "json \<Rightarrow> bool" where
  "metaShaped j =
     (case j of
        JObj kvs \<Rightarrow>
          list_all (\<lambda>(k, v). case v of
                       JObj fs \<Rightarrow> list_all (\<lambda>(f, x). f = ''notes'' \<or> f = ''ward'') fs
                     | _ \<Rightarrow> False) kvs
      | _ \<Rightarrow> False)"

text \<open>\<^verbatim>\<open>meta[pid]?.[k]\<close>: the field \<open>k\<close> the stored value holds for a patient, if any.\<close>

definition storedField :: "json \<Rightarrow> string \<Rightarrow> string \<Rightarrow> json option" where
  "storedField meta pid k =
     (case getProp meta pid of
        Inl e \<Rightarrow> None
      | Inr None \<Rightarrow> None
      | Inr (Some x) \<Rightarrow> ownProps x k)"

section \<open>Sample inputs\<close>

text \<open>Concrete draws, clocks, patients and stored values, on which the theorems are run.\<close>

definition sampleDraws :: "nat \<Rightarrow> real" where
  "sampleDraws k = 3 / 10"

definition sampleClock :: "nat \<Rightarrow> int" where
  "sampleClock i = 1700000000000"

definition sampleFmt :: "int \<Rightarrow> string" where
  "sampleFmt t = ''12:00''"

text \<open>A collation that is lexicographic on all strings.\<close>

definition sampleCollation :: "string \<Rightarrow> string \<Rightarrow> int" where
  "sampleCollation a b = (if a < b then - 1 else if a = b then 0 else 1)"

definition sampleLabel :: "nat \<Rightarrow> string" where
  "sampleLabel k = ''12:00:00''"

definition sampleReading :: "real \<Rightarrow> reading" where
  "sampleReading s = \<lparr> time = ''11:55'', spo2 = s, hr = 72, bp = 118 \<rparr>"

definition samplePatient :: "string \<Rightarrow> real \<Rightarrow> patient" where
  "samplePatient i s =
     \<lparr> id' = i, name = ''Patient'', age = 40, ward = ''General'', notes' = '''',
       history = Some [sampleReading s], vitals = Some (sampleReading s),
       avatarColor = ''bg-sky-500'' \<rparr>"


definition storeWithId :: storage where
  "storeWithId =
     [STORAGE_KEY \<mapsto> Wellformed (JObj [(''PT-1000'', JObj [(''id'', JStr ''PT-7'')])])]"

definition storeWithNumber :: storage where
  "storeWithNumber =
     [STORAGE_KEY \<mapsto> Wellformed (JObj [(''PT-1000'', JObj [(''notes'', JNum 7)])])]"

definition storeShaped :: storage where
  "storeShaped =
     [STORAGE_KEY \<mapsto> Wellformed (JObj [(''PT-1001'',
        JObj [(''notes'', JStr ''check at noon''), (''ward'', JStr ''ICU'')])])]"

section \<open>Auxiliary facts\<close>

subsection \<open>Rounding and the simulation step\<close>

lemma isInteger_Math_round: "isInteger (Math_round x)"
  by (simp add: isInteger_def Math_round_def)

lemma isInteger_add: "isInteger a \<Longrightarrow> isInteger b \<Longrightarrow> isInteger (a + b)"
  unfolding isInteger_def
  by (metis floor_of_int of_int_add)

lemma isInteger_numeral: "isInteger (numeral n)"
  by (simp add: isInteger_def)

lemma isInteger_max_min: "isInteger a \<Longrightarrow> isInteger b \<Longrightarrow> isInteger c \<Longrightarrow> isInteger (max a (min b c))"
  by (simp add: max_def min_def)

lemma newPoint_inClamps: "inClamps (newPoint r1 r2 r3 l p)"
  by (simp add: inClamps_def newPoint_def Let_def)

lemma tickPatient_vitals: "vitals (tickPatient r1 r2 r3 l p) = Some (newPoint r1 r2 r3 l p)"
  by (simp add: tickPatient_def Let_def)

lemma tickFrom_all:
  "(\<And>r1 r2 r3 l p. P (tickPatient r1 r2 r3 l p)) \<Longrightarrow> list_all P (tickFrom rnd lbl k ps)"
  by (induction ps arbitrary: k) auto

lemma tickPatient_id: "id' (tickPatient r1 r2 r3 l p) = id' p"
  by (simp add: tickPatient_def Let_def)

lemma tickFrom_ids: "map id' (tickFrom rnd lbl k ps) = map id' ps"
  by (induction ps arbitrary: k) (auto simp: tickPatient_id)

lemma slice_last_length: "length (slice_last n xs) \<le> n"
  by (simp add: slice_last_def)

lemma slice_last_snoc: "0 < n \<Longrightarrow> slice_last n (xs @ [x]) = drop (Suc (length xs) - n) xs @ [x]"
  by (simp add: slice_last_def)

lemma tickPatient_historyOk: "historyOk (tickPatient r1 r2 r3 l p)"
  by (simp add: historyOk_def tickPatient_def Let_def slice_last_length slice_last_snoc)

lemma seedPatient_historyOk: "historyOk (seedPatient rnd now fmt i)"
  by (simp add: historyOk_def seedPatient_def Let_def last_conv_nth)

lemma spreadPatch_historyOk: "historyOk (spreadPatch p pt) = historyOk p"
  by (simp add: historyOk_def spreadPatch_def Let_def split: option.splits)

lemma spo2Delta_neg: "spo2Delta r < 0 \<longleftrightarrow> r < 21/40"
proof -
  have "spo2Delta r < 0 \<longleftrightarrow> \<lfloor>(r - 65 / 100) * 4 + 1 / 2\<rfloor> < 0"
    by (simp add: spo2Delta_def Math_round_def)
  also have "\<dots> \<longleftrightarrow> (r - 65 / 100) * 4 + 1 / 2 < 0"
    by (simp add: floor_less_iff)
  also have "\<dots> \<longleftrightarrow> r < 21/40" by auto
  finally show ?thesis .
qed

lemma spo2Delta_pos: "0 < spo2Delta r \<longleftrightarrow> 31/40 \<le> r"
proof -
  have "0 < spo2Delta r \<longleftrightarrow> 0 < \<lfloor>(r - 65 / 100) * 4 + 1 / 2\<rfloor>"
    by (simp add: spo2Delta_def Math_round_def)
  also have "\<dots> \<longleftrightarrow> 1 \<le> (r - 65 / 100) * 4 + 1 / 2"
    using le_floor_iff [of 1 "(r - 65 / 100) * 4 + 1 / 2"] by simp
  also have "\<dots> \<longleftrightarrow> 31/40 \<le> r" by auto
  finally show ?thesis .
qed

lemma spo2Delta_range:
  assumes "0 \<le> r" "r < 1"
  shows "- 3 \<le> spo2Delta r \<and> spo2Delta r \<le> 1"
proof -
  let ?x = "(r - 65 / 100) * 4 + 1 / 2"
  have "real_of_int (- 3) \<le> ?x" using assms by simp
  then have lo: "- 3 \<le> \<lfloor>?x\<rfloor>" by (simp only: le_floor_iff)
  have "?x < real_of_int 2" using assms by simp
  then have "\<lfloor>?x\<rfloor> < 2" by (simp only: floor_less_iff)
  then have hi: "\<lfloor>?x\<rfloor> \<le> 1" by simp
  have "spo2Delta r = real_of_int \<lfloor>?x\<rfloor>" by (simp only: spo2Delta_def Math_round_def)
  moreover have "- 3 \<le> real_of_int \<lfloor>?x\<rfloor>" using lo by linarith
  moreover have "real_of_int \<lfloor>?x\<rfloor> \<le> 1" using hi by linarith
  ultimately show ?thesis by simp
qed


lemma makeInitialPatients_set:
  "set (makeInitialPatients rnd now fmt) = seedPatient rnd now fmt ` {0..<10}"
  by (simp add: makeInitialPatients_def)

lemma isInteger_Ints: "isInteger x \<longleftrightarrow> x \<in> \<int>"
  unfolding isInteger_def by (metis Ints_of_int Ints_cases floor_of_int)

lemma isInteger_base: "isInteger (95 - real (i mod 4))"
  unfolding isInteger_Ints by simp

lemma isInteger_shift: "isInteger a \<Longrightarrow> isInteger (a + (x - 2)) \<longleftrightarrow> isInteger x"
proof -
  assume a: "isInteger a"
  have "a + (x - 2) = (a - 2) + x" by simp
  moreover have "a - 2 \<in> \<int>" using a unfolding isInteger_Ints by simp
  ultimately show ?thesis unfolding isInteger_Ints by (simp only: add_in_Ints_iff_left)
qed

lemma seedReading_spo2_range:
  "80 \<le> spo2 (seedReading rnd t fmt i idx) \<and> spo2 (seedReading rnd t fmt i idx) \<le> 100"
  by (simp add: seedReading_def Let_def)

lemma seedReading_spo2_exact:
  assumes "0 \<le> rnd (24 * i + 3 * idx)" "rnd (24 * i + 3 * idx) < 1"
  shows "spo2 (seedReading rnd t fmt i idx) = 95 - real (i mod 4) + (rnd (24 * i + 3 * idx) * 4 - 2)"
proof -
  have "i mod 4 < 4" by simp
  then have "real (i mod 4) < real 4" by (simp only: of_nat_less_iff)
  then have "real (i mod 4) < 4" by simp
  moreover have "0 \<le> real (i mod 4)" by simp
  ultimately show ?thesis using assms
    by (simp add: seedReading_def Let_def max_def min_def)
qed

lemma newPoint_spo2_integer:
  assumes "case vitals p of None \<Rightarrow> True | Some v \<Rightarrow> isInteger (spo2 v)"
  shows "isInteger (spo2 (newPoint da db dc l p))"
proof -
  let ?prev = "case vitals p of None \<Rightarrow> 97 | Some v \<Rightarrow> spo2 v"
  have "isInteger ?prev" using assms by (auto simp: isInteger_numeral split: option.splits)
  then have "isInteger (?prev + spo2Delta da)"
    by (simp add: isInteger_add spo2Delta_def isInteger_Math_round)
  then have "isInteger (max 60 (min 100 (?prev + spo2Delta da)))"
    by (intro isInteger_max_min isInteger_numeral)
  then show ?thesis by (simp add: newPoint_def Let_def)
qed

subsection \<open>The sort\<close>

lemma insertBy_mset: "insertBy cmp x ys = Some r \<Longrightarrow> mset r = add_mset x (mset ys)"
  by (induction ys arbitrary: r) (auto split: option.splits if_splits)

lemma sort'_mset: "sort' cmp xs = Some r \<Longrightarrow> mset r = mset xs"
  by (induction xs arbitrary: r) (auto split: option.splits dest: insertBy_mset)

lemma cmpPatients_total:
  assumes "vitals a = Some va" "vitals b = Some vb"
  shows "\<exists>c. cmpPatients coll a b = Some c"
  using assms by (simp add: cmpPatients_def Let_def)

lemma cmpPatients_Some:
  assumes "vitals a = Some va" "vitals b = Some vb" "lexOn coll (id' a) (id' b)"
  shows "\<exists>c. cmpPatients coll a b = Some c \<and> (c \<le> 0 \<longleftrightarrow> inOrder a b)
             \<and> (c = 0 \<longleftrightarrow> severityScore (spo2 va) = severityScore (spo2 vb) \<and> id' a = id' b)"
proof -
  from assms(3) have "coll (id' a) (id' b) \<le> 0 \<longleftrightarrow> id' a \<le> id' b"
    and "coll (id' a) (id' b) = 0 \<longleftrightarrow> id' a = id' b"
    by (auto simp: lexOn_def le_less)
  with assms(1,2) show ?thesis
    by (auto simp: cmpPatients_def inOrder_def Let_def)
qed

lemma inOrder_trans: "inOrder a b \<Longrightarrow> inOrder b c \<Longrightarrow> inOrder a c"
  by (auto simp: inOrder_def split: option.splits)

lemma inOrder_total: "vitals a \<noteq> None \<Longrightarrow> vitals b \<noteq> None \<Longrightarrow> inOrder a b \<or> inOrder b a"
  by (auto simp: inOrder_def split: option.splits)

lemma insertBy_Some:
  assumes "\<forall>p\<in>set (x # ys). vitals p \<noteq> None"
  shows "\<exists>r. insertBy (cmpPatients coll) x ys = Some r"
  using assms
proof (induction ys)
  case Nil
  then show ?case by simp
next
  case (Cons y ys)
  from Cons.prems obtain vx vy where v: "vitals x = Some vx" "vitals y = Some vy" by auto
  from cmpPatients_total [OF v] obtain c where c: "cmpPatients coll x y = Some c" by blast
  from Cons.IH Cons.prems obtain r where "insertBy (cmpPatients coll) x ys = Some r" by auto
  with c show ?case by simp
qed

lemma sort'_Some:
  assumes "\<forall>p\<in>set xs. vitals p \<noteq> None"
  shows "\<exists>r. sort' (cmpPatients coll) xs = Some r"
  using assms
proof (induction xs)
  case Nil
  then show ?case by simp
next
  case (Cons x xs)
  then obtain ys where ys: "sort' (cmpPatients coll) xs = Some ys" by auto
  from sort'_mset [OF ys] have "set_mset (mset ys) = set_mset (mset xs)" by simp
  then have "set ys = set xs" by simp
  with Cons.prems have "\<forall>p\<in>set (x # ys). vitals p \<noteq> None" by simp
  from insertBy_Some [OF this, of coll] ys show ?case by simp
qed

lemma insertBy_sorted:
  assumes "\<forall>p\<in>set (x # ys). vitals p \<noteq> None"
    and "\<forall>p\<in>set (x # ys). \<forall>q\<in>set (x # ys). lexOn coll (id' p) (id' q)"
    and "sorted_wrt inOrder ys"
  shows "\<exists>r. insertBy (cmpPatients coll) x ys = Some r \<and> sorted_wrt inOrder r"
  using assms
proof (induction ys)
  case Nil
  then show ?case by simp
next
  case (Cons y ys)
  from Cons.prems(1) obtain vx vy where v: "vitals x = Some vx" "vitals y = Some vy" by auto
  from Cons.prems(2) have "lexOn coll (id' x) (id' y)" by simp
  from cmpPatients_Some [OF v this] obtain c where
    c: "cmpPatients coll x y = Some c" "c \<le> 0 \<longleftrightarrow> inOrder x y" by blast
  show ?case
  proof (cases "c \<le> 0")
    case True
    with c have xy: "inOrder x y" by simp
    have "\<forall>z\<in>set ys. inOrder x z"
      using Cons.prems(3) xy inOrder_trans by auto
    with True c xy Cons.prems(3) show ?thesis by simp
  next
    case False
    with c have "\<not> inOrder x y" by simp
    with v inOrder_total [of y x] have yx: "inOrder y x" by auto
    from Cons.prems have "\<forall>p\<in>set (x # ys). vitals p \<noteq> None"
      and "\<forall>p\<in>set (x # ys). \<forall>q\<in>set (x # ys). lexOn coll (id' p) (id' q)"
      and "sorted_wrt inOrder ys"
      by simp_all
    with Cons.IH obtain r where
      r: "insertBy (cmpPatients coll) x ys = Some r" "sorted_wrt inOrder r" by blast
    from insertBy_mset [OF r(1)] have "set_mset (mset r) = set_mset (add_mset x (mset ys))"
      by simp
    then have "set r = insert x (set ys)" by simp
    with yx Cons.prems(3) have "\<forall>z\<in>set r. inOrder y z" by auto
    with False c r show ?thesis by simp
  qed
qed

lemma sort'_sorted:
  assumes "\<forall>p\<in>set xs. vitals p \<noteq> None"
    and "\<forall>p\<in>set xs. \<forall>q\<in>set xs. lexOn coll (id' p) (id' q)"
  shows "\<exists>r. sort' (cmpPatients coll) xs = Some r \<and> sorted_wrt inOrder r"
  using assms
proof (induction xs)
  case Nil
  then show ?case by simp
next
  case (Cons x xs)
  from Cons.prems have "\<forall>p\<in>set xs. vitals p \<noteq> None"
    and "\<forall>p\<in>set xs. \<forall>q\<in>set xs. lexOn coll (id' p) (id' q)"
    by simp_all
  with Cons.IH obtain ys where
    ys: "sort' (cmpPatients coll) xs = Some ys" "sorted_wrt inOrder ys" by blast
  from sort'_mset [OF ys(1)] have "set_mset (mset ys) = set_mset (mset xs)" by simp
  then have s: "set ys = set xs" by simp
  with Cons.prems have a: "\<forall>p\<in>set (x # ys). vitals p \<noteq> None"
    and b: "\<forall>p\<in>set (x # ys). \<forall>q\<in>set (x # ys). lexOn coll (id' p) (id' q)"
    by simp_all
  from insertBy_sorted [OF a b ys(2)] ys(1) show ?case by simp
qed

lemma simulate_vitals: "\<forall>q\<in>set (simulateVitalsUpdate rnd lbl prev). vitals q \<noteq> None"
  using tickFrom_all [of "\<lambda>q. vitals q \<noteq> None" rnd lbl 0 prev]
  by (simp add: simulateVitalsUpdate_def tickPatient_vitals list_all_iff)

lemma simulate_ids: "map id' (simulateVitalsUpdate rnd lbl prev) = map id' prev"
  by (simp add: simulateVitalsUpdate_def tickFrom_ids)

lemma tick_Some: "\<exists>r. tick coll rnd lbl prev = Some r"
  unfolding tick_def by (rule sort'_Some [OF simulate_vitals])

lemma tick_lex_sorted:
  assumes "\<forall>a\<in>set (map id' prev). \<forall>b\<in>set (map id' prev). lexOn coll a b"
  shows "\<exists>r. tick coll rnd lbl prev = Some r \<and> sorted_wrt inOrder r"
proof -
  have "\<forall>p\<in>set (simulateVitalsUpdate rnd lbl prev). \<forall>q\<in>set (simulateVitalsUpdate rnd lbl prev).
      lexOn coll (id' p) (id' q)"
  proof (intro ballI)
    fix p q
    assume "p \<in> set (simulateVitalsUpdate rnd lbl prev)" "q \<in> set (simulateVitalsUpdate rnd lbl prev)"
    then have "id' p \<in> set (map id' (simulateVitalsUpdate rnd lbl prev))"
      and "id' q \<in> set (map id' (simulateVitalsUpdate rnd lbl prev))"
      by simp_all
    then have "id' p \<in> set (map id' prev)" and "id' q \<in> set (map id' prev)"
      by (simp_all only: simulate_ids)
    with assms show "lexOn coll (id' p) (id' q)" by blast
  qed
  with simulate_vitals show ?thesis unfolding tick_def by (rule sort'_sorted)
qed

lemma tick_set: "tick coll rnd lbl prev = Some r \<Longrightarrow> set r = set (simulateVitalsUpdate rnd lbl prev)"
  unfolding tick_def by (drule sort'_mset) (metis set_mset_mset)

lemma tick_mset: "tick coll rnd lbl prev = Some r \<Longrightarrow> mset r = mset (simulateVitalsUpdate rnd lbl prev)"
  unfolding tick_def by (rule sort'_mset)

lemma tick_ids:
  assumes "tick coll rnd lbl prev = Some r"
  shows "mset (map id' r) = mset (map id' prev)"
proof -
  have "mset (map id' r) = image_mset id' (mset r)" by simp
  also have "\<dots> = image_mset id' (mset (simulateVitalsUpdate rnd lbl prev))"
    by (simp only: tick_mset [OF assms])
  also have "\<dots> = mset (map id' (simulateVitalsUpdate rnd lbl prev))" by simp
  also have "\<dots> = mset (map id' prev)" by (simp only: simulate_ids)
  finally show ?thesis .
qed

lemma inOrder_explicit:
  assumes "inOrder a b"
  shows "\<exists>va vb. vitals a = Some va \<and> vitals b = Some vb
           \<and> severityScore (spo2 vb) \<le> severityScore (spo2 va)
           \<and> (severityScore (spo2 va) = severityScore (spo2 vb) \<longrightarrow> id' a \<le> id' b)"
  using assms by (auto simp: inOrder_def split: option.splits)

lemma sampleCollation_lexOn: "lexOn sampleCollation a b"
  by (auto simp: lexOn_def sampleCollation_def)

lemma sample_tick:
  "tick sampleCollation sampleDraws sampleLabel
     [samplePatient ''PT-1001'' 95, samplePatient ''PT-1000'' 95, samplePatient ''PT-1002'' 88]
     = Some [tickPatient (3/10) (3/10) (3/10) ''12:00:00'' (samplePatient ''PT-1002'' 88),
             tickPatient (3/10) (3/10) (3/10) ''12:00:00'' (samplePatient ''PT-1000'' 95),
             tickPatient (3/10) (3/10) (3/10) ''12:00:00'' (samplePatient ''PT-1001'' 95)]"
  by (simp add: tick_def simulateVitalsUpdate_def sampleDraws_def sampleLabel_def
      cmpPatients_def tickPatient_def newPoint_def samplePatient_def sampleReading_def
      spo2Delta_def Math_round_def severityScore_def Let_def slice_last_def
      sampleCollation_def)

subsection \<open>Hydration and persistence\<close>

lemma digit_not_P: "n < 10 \<Longrightarrow> ''0123456789'' ! n \<noteq> CHR ''P''"
proof -
  assume "n < 10"
  then have "''0123456789'' ! n \<in> set ''0123456789''" by (intro nth_mem) simp
  then show ?thesis by auto
qed

lemma decimal_hd: "\<exists>c cs. decimal n = c # cs \<and> c \<noteq> CHR ''P''"
proof (induction n rule: decimal.induct)
  case (1 n)
  show ?case
  proof (cases "n < 10")
    case True
    then show ?thesis using digit_not_P [of n] by (subst decimal.simps) simp
  next
    case False
    with 1 obtain c cs where "decimal (n div 10) = c # cs" "c \<noteq> CHR ''P''" by blast
    with False show ?thesis by (subst decimal.simps) simp
  qed
qed

lemma decimal_not_seedId: "decimal j \<noteq> seedId i"
  using decimal_hd [of j] by (auto simp: seedId_def)

lemma indexProps_seedId: "indexProps xs (seedId i) = None"
proof -
  have "seedId i \<notin> set (map decimal [0..<length xs])"
    using decimal_not_seedId [THEN not_sym] by auto
  then show ?thesis unfolding indexProps_def by (subst map_of_zip_is_None) simp_all
qed

lemma mapE_Inr: "(\<forall>x\<in>set xs. f x = Inr (g x)) \<Longrightarrow> mapE f xs = Inr (map g xs)"
  by (induction xs) auto

lemma hydrate_object:
  assumes "store STORAGE_KEY = Some (Wellformed (JObj kvs))"
  shows "hydrate store seeded =
     map (\<lambda>p. case props kvs (id' p) of None \<Rightarrow> toObject p | Some x \<Rightarrow> toObject p ++ ownProps x) seeded"
proof -
  have "mapE (hydrateOne (JObj kvs)) seeded =
     Inr (map (\<lambda>p. case props kvs (id' p) of None \<Rightarrow> toObject p | Some x \<Rightarrow> toObject p ++ ownProps x) seeded)"
    by (rule mapE_Inr) (simp add: hydrateOne_def split: option.splits)
  with assms show ?thesis by (simp add: hydrate_def parseStored_def)
qed

lemma mapE_length: "mapE f xs = Inr ys \<Longrightarrow> length ys = length xs"
  by (induction xs arbitrary: ys) (auto split: sum.splits)

lemma hydrate_seed_length: "length (hydrate store seeded) = length seeded"
  by (auto simp: hydrate_def split: sum.splits dest: mapE_length)

lemma hydrate_not_object:
  assumes "\<not> (\<exists>kvs. store STORAGE_KEY = Some (Wellformed (JObj kvs)))"
    and ids: "\<forall>p\<in>set seeded. \<exists>i. id' p = seedId i"
  shows "hydrate store seeded = map toObject seeded"
proof (cases "parseStored (store STORAGE_KEY)")
  case (Inl e)
  then show ?thesis by (simp add: hydrate_def)
next
  case (Inr meta)
  show ?thesis
  proof (cases "store STORAGE_KEY = None \<or> store STORAGE_KEY = Some EmptyString")
    case True
    with Inr have "meta = JObj []" by (auto simp: parseStored_def)
    then have "mapE (hydrateOne meta) seeded = Inr (map toObject seeded)"
      by (intro mapE_Inr) (simp add: hydrateOne_def props_def)
    with Inr show ?thesis by (simp add: hydrate_def)
  next
    case False
    with Inr have st: "store STORAGE_KEY = Some (Wellformed meta)"
      by (auto simp: parseStored_def split: option.splits item.splits)
    with assms(1) have no: "\<And>kvs. meta \<noteq> JObj kvs" by auto
    show ?thesis
    proof (cases "meta = JNull")
      case True
      then have "mapE (hydrateOne meta) seeded = Inl TypeError \<or> seeded = []"
        by (cases seeded) (auto simp: hydrateOne_def)
      with Inr show ?thesis by (auto simp: hydrate_def)
    next
      case False
      have "\<forall>p\<in>set seeded. hydrateOne meta p = Inr (toObject p)"
      proof
        fix p assume "p \<in> set seeded"
        with ids obtain i where "id' p = seedId i" by blast
        with False no show "hydrateOne meta p = Inr (toObject p)"
          by (cases meta) (auto simp: hydrateOne_def indexProps_seedId)
      qed
      then have "mapE (hydrateOne meta) seeded = Inr (map toObject seeded)"
        by (rule mapE_Inr)
      with Inr show ?thesis by (simp add: hydrate_def)
    qed
  qed
qed

lemma seed_ids: "\<forall>p\<in>set (makeInitialPatients rnd now fmt). \<exists>i. id' p = seedId i"
  by (auto simp: makeInitialPatients_set seedPatient_def Let_def)

lemma seed_nth: "i < 10 \<Longrightarrow> makeInitialPatients rnd now fmt ! i = seedPatient rnd now fmt i"
  unfolding makeInitialPatients_def by (subst nth_map) (simp_all del: upt_rec_numeral)

lemma seed_length: "length (makeInitialPatients rnd now fmt) = 10"
  by (simp add: makeInitialPatients_def del: upt_rec_numeral)

lemma seedPatient_id: "id' (seedPatient rnd now fmt i) = seedId i"
  by (simp add: seedPatient_def Let_def)

lemma toObject_id: "toObject p ''id'' = Some (JStr (id' p))"
  by (simp add: toObject_def Let_def split: option.splits)

lemma toObject_notes: "toObject p ''notes'' = Some (JStr (notes' p))"
  by (simp add: toObject_def Let_def split: option.splits)

lemma initial_length: "length (initialPatients store rnd now fmt) = 10"
  by (simp add: initialPatients_def hydrate_seed_length seed_length)

lemma initial_object_nth:
  assumes "store STORAGE_KEY = Some (Wellformed (JObj kvs))" "i < 10"
  shows "initialPatients store rnd now fmt ! i =
     (case props kvs (seedId i) of
        None \<Rightarrow> toObject (seedPatient rnd now fmt i)
      | Some x \<Rightarrow> toObject (seedPatient rnd now fmt i) ++ ownProps x)"
proof -
  have len: "i < length (makeInitialPatients rnd now fmt)" using assms(2) by (simp add: seed_length)
  have "initialPatients store rnd now fmt ! i =
     (case props kvs (id' (makeInitialPatients rnd now fmt ! i)) of
        None \<Rightarrow> toObject (makeInitialPatients rnd now fmt ! i)
      | Some x \<Rightarrow> toObject (makeInitialPatients rnd now fmt ! i) ++ ownProps x)"
    unfolding initialPatients_def hydrate_object [where store = store, OF assms(1)]
    using len by (rule nth_map)
  then show ?thesis unfolding seed_nth [OF assms(2)] seedPatient_id .
qed

lemma props_mem: "props kvs k = Some x \<Longrightarrow> (k, x) \<in> set kvs"
  unfolding props_def by (drule map_of_SomeD) simp

lemma props_None: "(\<forall>(f, x)\<in>set fs. f = a \<or> f = b) \<Longrightarrow> k \<noteq> a \<Longrightarrow> k \<noteq> b \<Longrightarrow> props fs k = None"
  unfolding props_def by (auto simp: map_of_eq_None_iff)

lemma metaShaped_entry:
  assumes "metaShaped (JObj kvs)" "props kvs pid = Some x" "k \<noteq> ''notes''" "k \<noteq> ''ward''"
  shows "ownProps x k = None"
proof -
  from assms(2) have "(pid, x) \<in> set kvs" by (rule props_mem)
  with assms(1) obtain fs where x: "x = JObj fs"
    and fs: "\<forall>(f, y)\<in>set fs. f = ''notes'' \<or> f = ''ward''"
    by (auto simp: metaShaped_def list_all_iff split: json.splits)
  from props_None [OF fs assms(3) assms(4)] x show ?thesis by simp
qed

lemma seedId_1: "seedId 1 = ''PT-1001''"
  by (simp add: seedId_def decimal.simps)

lemma seedId_0: "seedId 0 = ''PT-1000''"
  by (simp add: seedId_def decimal.simps)

lemma fold_update_map_of:
  "map_of (fold (\<lambda>(k, v) acc. AList.update k v acc) es acc) = map_of acc ++ map_of (rev es)"
proof (induction es arbitrary: acc)
  case Nil
  then show ?case by simp
next
  case (Cons e es)
  obtain k v where e: "e = (k, v)" by (cases e)
  show ?case
  proof (rule ext)
    fix x
    from fun_cong [OF Cons.IH [of "AList.update k v acc"], of x] e
    show "map_of (fold (\<lambda>(k, v) acc. AList.update k v acc) (e # es) acc) x
        = (map_of acc ++ map_of (rev (e # es))) x"
      by (simp add: update_conv' map_add_def split: option.splits)
  qed
qed

lemma fold_update_distinct:
  "distinct (map fst acc) \<Longrightarrow> distinct (map fst (fold (\<lambda>(k, v) acc. AList.update k v acc) es acc))"
  by (induction es arbitrary: acc) (auto simp: distinct_update)

lemma props_distinct: "distinct (map fst kvs) \<Longrightarrow> props kvs = map_of kvs"
proof -
  assume d: "distinct (map fst kvs)"
  then have "distinct (map fst (rev kvs))" by (simp only: rev_map [symmetric] distinct_rev)
  with d have "map_of (rev kvs) = map_of kvs"
    by (subst map_of_inject_set) simp_all
  then show ?thesis by (simp add: props_def)
qed

lemma props_fromEntries: "props (fromEntries es) = props es"
proof -
  have "distinct (map fst (fromEntries es))"
    unfolding fromEntries_def by (rule fold_update_distinct) simp
  then have "props (fromEntries es) = map_of (fromEntries es)" by (rule props_distinct)
  also have "\<dots> = props es"
    unfolding fromEntries_def props_def by (simp add: fold_update_map_of)
  finally show ?thesis .
qed

lemma props_metaEntries:
  assumes "\<exists>p\<in>set ps. id' p = k"
    and "\<forall>p\<in>set ps. id' p = k \<longrightarrow> notes' p = n \<and> ward p = w"
  shows "props (map metaEntry ps) k = Some (JObj [(''notes'', JStr n), (''ward'', JStr w)])"
proof -
  from assms(1) have "k \<in> fst ` set (rev (map metaEntry ps))"
    by (auto simp: metaEntry_def image_iff)
  then obtain y where y: "map_of (rev (map metaEntry ps)) k = Some y"
    by (metis map_of_eq_None_iff not_None_eq)
  then have "(k, y) \<in> set (rev (map metaEntry ps))" by (rule map_of_SomeD)
  then obtain p where "p \<in> set ps" "metaEntry p = (k, y)" by auto
  with assms(2) have "y = JObj [(''notes'', JStr n), (''ward'', JStr w)]"
    by (auto simp: metaEntry_def)
  with y show ?thesis by (simp add: props_def)
qed

lemma reload_fields:
  assumes "i < 10" "\<exists>p\<in>set ps. id' p = seedId i"
    and "\<forall>p\<in>set ps. id' p = seedId i \<longrightarrow> notes' p = n \<and> ward p = w"
  shows "(initialPatients (persistMeta ps store) rnd now fmt ! i) ''id'' = Some (JStr (seedId i))
       \<and> (initialPatients (persistMeta ps store) rnd now fmt ! i) ''notes'' = Some (JStr n)
       \<and> (initialPatients (persistMeta ps store) rnd now fmt ! i) ''ward'' = Some (JStr w)"
proof -
  have st: "persistMeta ps store STORAGE_KEY
      = Some (Wellformed (JObj (fromEntries (map metaEntry ps))))"
    by (simp add: persistMeta_def)
  have "props (fromEntries (map metaEntry ps)) (seedId i)
      = Some (JObj [(''notes'', JStr n), (''ward'', JStr w)])"
    unfolding props_fromEntries by (rule props_metaEntries [OF assms(2) assms(3)])
  then have "initialPatients (persistMeta ps store) rnd now fmt ! i
      = toObject (seedPatient rnd now fmt i) ++ props [(''notes'', JStr n), (''ward'', JStr w)]"
    unfolding initial_object_nth [where store = "persistMeta ps store", OF st assms(1)] by simp
  then show ?thesis by (simp add: props_def toObject_id seedPatient_id)
qed

lemma spreadPatch_id: "id' (spreadPatch p pt) = id' p"
  by (simp add: spreadPatch_def Let_def split: option.splits)

lemma updateMeta_ids: "map id' (updateMeta k pt ps) = map id' ps"
  by (simp add: updateMeta_def spreadPatch_id)

subsection \<open>Identifiers of the seed\<close>

lemma digit_mem: "n < 10 \<Longrightarrow> ''0123456789'' ! n \<in> set ''0123456789''"
  by (intro nth_mem) simp

lemma decimal_digits:
  "decimal n \<noteq> [] \<and> list_all (\<lambda>c. c \<in> set ''0123456789'') (decimal n)"
proof (induction n rule: decimal.induct)
  case (1 n)
  show ?case
  proof (cases "n < 10")
    case True
    then show ?thesis using digit_mem [of n] by (subst (1 2) decimal.simps) simp
  next
    case False
    have "n mod 10 < 10" by simp
    from digit_mem [OF this] 1 False show ?thesis by (subst (1 2) decimal.simps) simp
  qed
qed

lemma seedFormat_seedId: "seedFormat (seedId i)"
  using decimal_digits [of "1000 + i"] by (simp add: seedFormat_def seedId_def)

lemma seed_format: "\<forall>p\<in>set (makeInitialPatients rnd now fmt). seedFormat (id' p)"
  by (auto simp: makeInitialPatients_set seedPatient_id seedFormat_seedId)

lemma seed_ids_list:
  "map id' (makeInitialPatients rnd now fmt)
     = [''PT-1000'', ''PT-1001'', ''PT-1002'', ''PT-1003'', ''PT-1004'',
        ''PT-1005'', ''PT-1006'', ''PT-1007'', ''PT-1008'', ''PT-1009'']"
proof -
  have "map id' (makeInitialPatients rnd now fmt) = map seedId [0..<10]"
    by (simp add: makeInitialPatients_def seedPatient_id comp_def del: upt_rec_numeral)
  also have "\<dots> = [''PT-1000'', ''PT-1001'', ''PT-1002'', ''PT-1003'', ''PT-1004'',
        ''PT-1005'', ''PT-1006'', ''PT-1007'', ''PT-1008'', ''PT-1009'']"
    by code_simp
  finally show ?thesis .
qed

lemma seed_ids_distinct: "distinct (map id' (makeInitialPatients rnd now fmt))"
  unfolding seed_ids_list by simp

section \<open>Severity of a value\<close>

text \<open>
  C1. For every oxygen-saturation value the severity score is one of 0, 1, 2, 3: 0 from 95
  upwards, 1 from 90 to 94, 2 from 85 to 89, 3 below 85; the boundaries 95, 94, 90, 89, 85
  and 84 fall as the table says. The score is 1 exactly on \<open>[90, 95)\<close> and 2 exactly on
  \<open>[85, 90)\<close>.
\<close>

theorem severityScore_table:
  "severityScore s \<in> {0, 1, 2, 3}
   \<and> (s \<ge> 95 \<longrightarrow> severityScore s = 0)
   \<and> (90 \<le> s \<and> s \<le> 94 \<longrightarrow> severityScore s = 1)
   \<and> (85 \<le> s \<and> s \<le> 89 \<longrightarrow> severityScore s = 2)
   \<and> (s < 85 \<longrightarrow> severityScore s = 3)
   \<and> (severityScore s = 0 \<longleftrightarrow> 95 \<le> s)
   \<and> (severityScore s = 1 \<longleftrightarrow> 90 \<le> s \<and> s < 95)
   \<and> (severityScore s = 2 \<longleftrightarrow> 85 \<le> s \<and> s < 90)
   \<and> (severityScore s = 3 \<longleftrightarrow> s < 85)
   \<and> severityScore 95 = 0 \<and> severityScore 94 = 1 \<and> severityScore 90 = 1
   \<and> severityScore 89 = 2 \<and> severityScore 85 = 2 \<and> severityScore 84 = 3"
  by (simp add: severityScore_def)

theorem severityScore_table_witness:
  "(90 \<le> (92::real) \<and> (92::real) \<le> 94) \<and> severityScore 92 = 1"
  using severityScore_table [of 92] by simp

section \<open>Clamps of a simulated reading\<close>

text \<open>
  C2. For every patient and every draw, the reading a simulation step produces has its oxygen
  saturation in \<open>[60, 100]\<close>, its heart rate in \<open>[45, 140]\<close> and its blood pressure in
  \<open>[80, 200]\<close>, and it is the patient's current reading afterwards; so it is for every
  patient of the simulated collection and of the sorted collection the step returns, whatever
  the collation. No assumption on the previous reading is needed.
\<close>

theorem tick_within_clamps:
  "inClamps (newPoint da db dc l p)
   \<and> vitals (tickPatient da db dc l p) = Some (newPoint da db dc l p)
   \<and> (\<forall>q\<in>set (simulateVitalsUpdate rnd lbl prev). \<exists>v. vitals q = Some v \<and> inClamps v)
   \<and> (\<exists>r. tick coll rnd lbl prev = Some r \<and> (\<forall>q\<in>set r. \<exists>v. vitals q = Some v \<and> inClamps v))"
proof -
  have all: "\<forall>q\<in>set (simulateVitalsUpdate rnd lbl prev). \<exists>v. vitals q = Some v \<and> inClamps v"
    using tickFrom_all [of "\<lambda>q. \<exists>v. vitals q = Some v \<and> inClamps v" rnd lbl 0 prev]
    by (simp add: simulateVitalsUpdate_def tickPatient_vitals newPoint_inClamps list_all_iff)
  obtain r where r: "tick coll rnd lbl prev = Some r" using tick_Some by blast
  with all tick_set [OF r] have "\<forall>q\<in>set r. \<exists>v. vitals q = Some v \<and> inClamps v" by simp
  with r all show ?thesis by (simp add: newPoint_inClamps tickPatient_vitals)
qed

theorem tick_within_clamps_witness:
  "tickPatient (3/10) (3/10) (3/10) ''12:00:00'' (samplePatient ''PT-1000'' 95)
     \<in> set (simulateVitalsUpdate sampleDraws sampleLabel [samplePatient ''PT-1000'' 95])
   \<and> (\<exists>v. vitals (tickPatient (3/10) (3/10) (3/10) ''12:00:00'' (samplePatient ''PT-1000'' 95)) = Some v
          \<and> inClamps v)"
  using tick_within_clamps [where da = "3/10" and db = "3/10" and dc = "3/10"
      and l = "''12:00:00''" and p = "samplePatient ''PT-1000'' 95" and rnd = sampleDraws
      and lbl = sampleLabel and prev = "[samplePatient ''PT-1000'' 95]" and coll = sampleCollation]
  by (simp add: simulateVitalsUpdate_def sampleDraws_def sampleLabel_def)

section \<open>Bounded history\<close>

text \<open>
  C3. Seed generation yields patients whose history has at most 16 readings, the current
  reading being its last; a simulation step appends the new reading and keeps the last 16 (the
  oldest are dropped first), which establishes the same invariant for every patient of the
  simulated and of the sorted collection; an edit of notes or ward preserves it.
\<close>

theorem history_invariant:
  "(\<forall>p\<in>set (makeInitialPatients rnd now fmt). historyOk p)
   \<and> historyOk (tickPatient da db dc l p)
   \<and> history (tickPatient da db dc l p)
       = Some (slice_last 16 ((case history p of None \<Rightarrow> [] | Some xs \<Rightarrow> xs) @ [newPoint da db dc l p]))
   \<and> slice_last 16 (h @ [x]) = drop (length h - 15) h @ [x]
   \<and> (\<forall>q\<in>set (simulateVitalsUpdate rnd lbl prev). historyOk q)
   \<and> (\<exists>r. tick coll rnd lbl prev = Some r \<and> (\<forall>q\<in>set r. historyOk q))
   \<and> ((\<forall>p\<in>set prev. historyOk p) \<longrightarrow> (\<forall>q\<in>set (updateMeta i pt prev). historyOk q))"
proof -
  have seed: "\<forall>p\<in>set (makeInitialPatients rnd now fmt). historyOk p"
    by (auto simp: makeInitialPatients_set seedPatient_historyOk)
  have hist: "history (tickPatient da db dc l p)
       = Some (slice_last 16 ((case history p of None \<Rightarrow> [] | Some xs \<Rightarrow> xs) @ [newPoint da db dc l p]))"
    by (simp add: tickPatient_def Let_def)
  have fifo: "slice_last 16 (h @ [x]) = drop (length h - 15) h @ [x]"
    by (simp add: slice_last_snoc)
  have sim: "\<forall>q\<in>set (simulateVitalsUpdate rnd lbl prev). historyOk q"
    using tickFrom_all [of historyOk rnd lbl 0 prev]
    by (simp add: simulateVitalsUpdate_def tickPatient_historyOk list_all_iff)
  obtain r where r: "tick coll rnd lbl prev = Some r" using tick_Some by blast
  with sim tick_set [OF r] have srt: "\<exists>r. tick coll rnd lbl prev = Some r \<and> (\<forall>q\<in>set r. historyOk q)"
    by simp
  have upd: "(\<forall>p\<in>set prev. historyOk p) \<longrightarrow> (\<forall>q\<in>set (updateMeta i pt prev). historyOk q)"
    by (auto simp: updateMeta_def spreadPatch_historyOk)
  from seed hist fifo sim srt upd tickPatient_historyOk show ?thesis by blast
qed

theorem history_invariant_witness:
  "historyOk (samplePatient ''PT-1000'' 95)
   \<and> spreadPatch (samplePatient ''PT-1000'' 95) \<lparr> patch_notes = Some ''stable'', patch_ward = None \<rparr>
       \<in> set (updateMeta ''PT-1000'' \<lparr> patch_notes = Some ''stable'', patch_ward = None \<rparr>
                [samplePatient ''PT-1000'' 95])
   \<and> historyOk (spreadPatch (samplePatient ''PT-1000'' 95)
                   \<lparr> patch_notes = Some ''stable'', patch_ward = None \<rparr>)
   \<and> seedPatient sampleDraws sampleClock sampleFmt 0
       \<in> set (makeInitialPatients sampleDraws sampleClock sampleFmt)
   \<and> historyOk (seedPatient sampleDraws sampleClock sampleFmt 0)"
proof -
  have h: "\<forall>p\<in>set [samplePatient ''PT-1000'' 95]. historyOk p"
    by (simp add: historyOk_def samplePatient_def)
  have m: "spreadPatch (samplePatient ''PT-1000'' 95) \<lparr> patch_notes = Some ''stable'', patch_ward = None \<rparr>
       \<in> set (updateMeta ''PT-1000'' \<lparr> patch_notes = Some ''stable'', patch_ward = None \<rparr>
                [samplePatient ''PT-1000'' 95])"
    by (simp add: updateMeta_def samplePatient_def)
  have s: "seedPatient sampleDraws sampleClock sampleFmt 0
       \<in> set (makeInitialPatients sampleDraws sampleClock sampleFmt)"
    by (simp add: makeInitialPatients_def)
  note t = history_invariant [where rnd = sampleDraws and now = sampleClock and fmt = sampleFmt
      and prev = "[samplePatient ''PT-1000'' 95]" and i = "''PT-1000''"
      and pt = "\<lparr> patch_notes = Some ''stable'', patch_ward = None \<rparr>"
      and da = 0 and db = 0 and dc = 0 and l = "''12:00:00''"
      and p = "samplePatient ''PT-1000'' 95" and h = "[]" and x = "0::nat" and lbl = sampleLabel
      and coll = sampleCollation]
  from t have t1: "\<forall>p\<in>set (makeInitialPatients sampleDraws sampleClock sampleFmt). historyOk p"
    by (rule conjunct1)
  from t h have t2: "\<forall>q\<in>set (updateMeta ''PT-1000''
      \<lparr> patch_notes = Some ''stable'', patch_ward = None \<rparr> [samplePatient ''PT-1000'' 95]). historyOk q"
    by (elim conjE) (erule mp)
  from t1 s have "historyOk (seedPatient sampleDraws sampleClock sampleFmt 0)" by (rule bspec)
  moreover from t2 m have "historyOk (spreadPatch (samplePatient ''PT-1000'' 95)
                   \<lparr> patch_notes = Some ''stable'', patch_ward = None \<rparr>)" by (rule bspec)
  moreover from h have "historyOk (samplePatient ''PT-1000'' 95)" by simp
  ultimately show ?thesis using m s by (intro conjI)
qed

section \<open>Distribution of the oxygen step\<close>

text \<open>
  C5, as the code has it. For a draw \<open>r\<close> in \<open>[0, 1)\<close> the oxygen step is an integer from
  \<open>-3\<close> to \<open>1\<close>; it is negative exactly for \<open>r < 0.525\<close>, zero exactly for
  \<open>0.525 \<le> r < 0.775\<close> and positive exactly for \<open>r \<ge> 0.775\<close>. Only the value before
  rounding is negative exactly for \<open>r < 0.65\<close>.
\<close>

theorem spo2Delta_distribution:
  assumes "0 \<le> r" "r < 1"
  shows "isInteger (spo2Delta r) \<and> - 3 \<le> spo2Delta r \<and> spo2Delta r \<le> 1
         \<and> (spo2Delta r < 0 \<longleftrightarrow> r < 21 / 40)
         \<and> (spo2Delta r = 0 \<longleftrightarrow> 21 / 40 \<le> r \<and> r < 31 / 40)
         \<and> (0 < spo2Delta r \<longleftrightarrow> 31 / 40 \<le> r)
         \<and> ((r - 65 / 100) * 4 < 0 \<longleftrightarrow> r < 65 / 100)"
proof -
  have z: "spo2Delta r = 0 \<longleftrightarrow> 21 / 40 \<le> r \<and> r < 31 / 40"
    using spo2Delta_neg [of r] spo2Delta_pos [of r] by linarith
  have i: "isInteger (spo2Delta r)" by (simp add: spo2Delta_def isInteger_Math_round)
  have u: "(r - 65 / 100) * 4 < 0 \<longleftrightarrow> r < 65 / 100" by auto
  from z i u spo2Delta_range [OF assms] spo2Delta_neg [of r] spo2Delta_pos [of r]
  show ?thesis by blast
qed

theorem spo2Delta_distribution_witness:
  "(0::real) \<le> 1 / 2 \<and> (1 / 2 :: real) < 1 \<and> spo2Delta (1 / 2) < 0 \<and> (1 / 2 :: real) < 21 / 40"
proof -
  have a: "(0::real) \<le> 1 / 2" and b: "(1 / 2 :: real) < 1" by simp_all
  from spo2Delta_distribution [OF a b] a b show ?thesis by simp
qed

text \<open>
  The draws \<open>0.525\<close>, \<open>0.6\<close> and \<open>0.645\<close> lie below \<open>0.65\<close> and yet their step is
  0, not negative: the draws with a negative step do not make up 65 percent of \<open>[0, 1)\<close>.
\<close>

theorem spo2Delta_not_negative_below_065:
  "(0::real) \<le> 21 / 40 \<and> (129 / 200 :: real) < 65 / 100
   \<and> spo2Delta (21 / 40) = 0 \<and> spo2Delta (3 / 5) = 0 \<and> spo2Delta (129 / 200) = 0
   \<and> \<not> spo2Delta (3 / 5) < 0"
  by (simp add: spo2Delta_def Math_round_def)

section \<open>Order after a simulation step\<close>

text \<open>
  C4. Let the identifiers of the collection have the seed's format \<^verbatim>\<open>PT-\<close> plus digits, and
  let the platform's collation order strings of that format lexicographically. Then a step
  returns a permutation of the simulated patients, with the same identifiers, in which every
  patient stands before all less severe ones and, among equally severe ones, before those with
  a greater identifier. For every adjacent pair \<open>(a, b)\<close> the severity of \<open>a\<close> is at least
  that of \<open>b\<close>, and when they are equal the identifier of \<open>a\<close> is lexicographically at most
  that of \<open>b\<close>. When the identifiers are distinct, as those of the seed are, the comparator
  is never 0 on two different positions.
\<close>

theorem tick_sorted:
  assumes "\<forall>p\<in>set prev. seedFormat (id' p)"
    and "\<forall>a b. seedFormat a \<and> seedFormat b \<longrightarrow> lexOn coll a b"
  shows "\<exists>r. tick coll rnd lbl prev = Some r
     \<and> mset r = mset (simulateVitalsUpdate rnd lbl prev)
     \<and> mset (map id' r) = mset (map id' prev)
     \<and> sorted_wrt inOrder r
     \<and> (\<forall>k. Suc k < length r \<longrightarrow>
          (\<exists>va vb. vitals (r ! k) = Some va \<and> vitals (r ! Suc k) = Some vb
             \<and> severityScore (spo2 vb) \<le> severityScore (spo2 va)
             \<and> (severityScore (spo2 va) = severityScore (spo2 vb)
                  \<longrightarrow> id' (r ! k) \<le> id' (r ! Suc k))))
     \<and> (distinct (map id' prev) \<longrightarrow>
          (\<forall>j k. j < length r \<and> k < length r \<and> j \<noteq> k \<longrightarrow>
             (\<exists>c. cmpPatients coll (r ! j) (r ! k) = Some c \<and> c \<noteq> 0)))"
proof -
  from assms have lex: "\<forall>a\<in>set (map id' prev). \<forall>b\<in>set (map id' prev). lexOn coll a b"
    by auto
  from tick_lex_sorted [OF lex] obtain r where
    r: "tick coll rnd lbl prev = Some r" and s: "sorted_wrt inOrder r"
    by blast
  have m: "mset r = mset (simulateVitalsUpdate rnd lbl prev)" by (rule tick_mset [OF r])
  have mi: "mset (map id' r) = mset (map id' prev)" by (rule tick_ids [OF r])
  then have "set_mset (mset (map id' r)) = set_mset (mset (map id' prev))" by simp
  then have si: "set (map id' r) = set (map id' prev)" by simp
  have adj: "\<forall>k. Suc k < length r \<longrightarrow>
          (\<exists>va vb. vitals (r ! k) = Some va \<and> vitals (r ! Suc k) = Some vb
             \<and> severityScore (spo2 vb) \<le> severityScore (spo2 va)
             \<and> (severityScore (spo2 va) = severityScore (spo2 vb)
                  \<longrightarrow> id' (r ! k) \<le> id' (r ! Suc k)))"
  proof (intro allI impI)
    fix k assume k: "Suc k < length r"
    have "inOrder (r ! k) (r ! Suc k)"
      by (rule sorted_wrt_nth_less [OF s _ k]) simp
    then show "\<exists>va vb. vitals (r ! k) = Some va \<and> vitals (r ! Suc k) = Some vb
             \<and> severityScore (spo2 vb) \<le> severityScore (spo2 va)
             \<and> (severityScore (spo2 va) = severityScore (spo2 vb)
                  \<longrightarrow> id' (r ! k) \<le> id' (r ! Suc k))"
      by (rule inOrder_explicit)
  qed
  have vit: "\<forall>q\<in>set r. vitals q \<noteq> None"
    using simulate_vitals [of rnd lbl prev] tick_set [OF r] by simp
  have uniq: "distinct (map id' prev) \<longrightarrow>
          (\<forall>j k. j < length r \<and> k < length r \<and> j \<noteq> k \<longrightarrow>
             (\<exists>c. cmpPatients coll (r ! j) (r ! k) = Some c \<and> c \<noteq> 0))"
  proof (intro impI allI)
    fix j k
    assume d: "distinct (map id' prev)" and jk: "j < length r \<and> k < length r \<and> j \<noteq> k"
    from d mi have dr: "distinct (map id' r)"
      by (metis mset_eq_imp_distinct_iff)
    from jk dr have ne: "id' (r ! j) \<noteq> id' (r ! k)"
      using nth_eq_iff_index_eq [of "map id' r" j k] by simp
    from jk have "id' (r ! j) \<in> set (map id' r)" and "id' (r ! k) \<in> set (map id' r)"
      by simp_all
    with si lex have l: "lexOn coll (id' (r ! j)) (id' (r ! k))" by blast
    from jk vit obtain va vb where v: "vitals (r ! j) = Some va" "vitals (r ! k) = Some vb"
      by (metis nth_mem not_None_eq)
    from cmpPatients_Some [OF v l] ne
    show "\<exists>c. cmpPatients coll (r ! j) (r ! k) = Some c \<and> c \<noteq> 0" by auto
  qed
  from r m mi s adj uniq show ?thesis by blast
qed

theorem tick_sorted_witness:
  "list_all (\<lambda>p. seedFormat (id' p)) (makeInitialPatients sampleDraws sampleClock sampleFmt)
   \<and> distinct (map id' (makeInitialPatients sampleDraws sampleClock sampleFmt))
   \<and> lexOn sampleCollation ''PT-1000'' ''PT-1001''
   \<and> (\<exists>r. tick sampleCollation sampleDraws sampleLabel
             (makeInitialPatients sampleDraws sampleClock sampleFmt) = Some r
          \<and> sorted_wrt inOrder r
          \<and> mset (map id' r) = mset (map id' (makeInitialPatients sampleDraws sampleClock sampleFmt))
          \<and> (\<exists>c. cmpPatients sampleCollation (r ! 0) (r ! 1) = Some c \<and> c \<noteq> 0))
   \<and> seedFormat ''PT-1000'' \<and> seedFormat ''PT-1001'' \<and> seedFormat ''PT-1002''
   \<and> (\<exists>r. tick sampleCollation sampleDraws sampleLabel
             [samplePatient ''PT-1001'' 95, samplePatient ''PT-1000'' 95, samplePatient ''PT-1002'' 88]
             = Some r
          \<and> map id' r = [''PT-1002'', ''PT-1000'', ''PT-1001'']
          \<and> inOrder (r ! 0) (r ! 1) \<and> inOrder (r ! 1) (r ! 2))"
proof -
  let ?seed = "makeInitialPatients sampleDraws sampleClock sampleFmt"
  let ?prev = "[samplePatient ''PT-1001'' 95, samplePatient ''PT-1000'' 95, samplePatient ''PT-1002'' 88]"
  have coll: "\<forall>a b. seedFormat a \<and> seedFormat b \<longrightarrow> lexOn sampleCollation a b"
    by (simp add: sampleCollation_lexOn)
  have f: "\<forall>p\<in>set ?seed. seedFormat (id' p)" by (rule seed_format)
  then have fl: "list_all (\<lambda>p. seedFormat (id' p)) ?seed" by (simp add: list_all_iff)
  have d: "distinct (map id' ?seed)" by (rule seed_ids_distinct)
  have len: "length ?seed = 10" by (rule seed_length)
  from tick_sorted [OF f coll, of sampleDraws sampleLabel] obtain r where
    r: "tick sampleCollation sampleDraws sampleLabel ?seed = Some r"
    and s: "sorted_wrt inOrder r"
    and mi: "mset (map id' r) = mset (map id' ?seed)"
    and u: "distinct (map id' ?seed) \<longrightarrow>
          (\<forall>j k. j < length r \<and> k < length r \<and> j \<noteq> k \<longrightarrow>
             (\<exists>c. cmpPatients sampleCollation (r ! j) (r ! k) = Some c \<and> c \<noteq> 0))"
    by blast
  from mi have "length (map id' r) = length (map id' ?seed)" by (rule mset_eq_length)
  with len have lr: "length r = 10" by simp
  from u d lr have c: "\<exists>c. cmpPatients sampleCollation (r ! 0) (r ! 1) = Some c \<and> c \<noteq> 0"
    by simp
  from r s mi c have A: "\<exists>r. tick sampleCollation sampleDraws sampleLabel ?seed = Some r
          \<and> sorted_wrt inOrder r
          \<and> mset (map id' r) = mset (map id' ?seed)
          \<and> (\<exists>c. cmpPatients sampleCollation (r ! 0) (r ! 1) = Some c \<and> c \<noteq> 0)"
    by (intro exI [of _ r] conjI)
  have g: "seedFormat ''PT-1000''" "seedFormat ''PT-1001''" "seedFormat ''PT-1002''"
    by (simp_all add: seedFormat_def)
  then have f2: "\<forall>p\<in>set ?prev. seedFormat (id' p)" by (simp add: samplePatient_def)
  from tick_sorted [OF f2 coll, of sampleDraws sampleLabel] obtain r2 where
    r2: "tick sampleCollation sampleDraws sampleLabel ?prev = Some r2"
    and s2: "sorted_wrt inOrder r2"
    by blast
  from r2 sample_tick have req: "r2 =
      [tickPatient (3/10) (3/10) (3/10) ''12:00:00'' (samplePatient ''PT-1002'' 88),
       tickPatient (3/10) (3/10) (3/10) ''12:00:00'' (samplePatient ''PT-1000'' 95),
       tickPatient (3/10) (3/10) (3/10) ''12:00:00'' (samplePatient ''PT-1001'' 95)]"
    by simp
  from s2 req have o: "inOrder (r2 ! 0) (r2 ! 1)" "inOrder (r2 ! 1) (r2 ! 2)" by simp_all
  from req have ids: "map id' r2 = [''PT-1002'', ''PT-1000'', ''PT-1001'']"
    by (simp add: tickPatient_id samplePatient_def)
  from r2 ids o have B: "\<exists>r. tick sampleCollation sampleDraws sampleLabel ?prev = Some r
          \<and> map id' r = [''PT-1002'', ''PT-1000'', ''PT-1001'']
          \<and> inOrder (r ! 0) (r ! 1) \<and> inOrder (r ! 1) (r ! 2)"
    by (intro exI [of _ r2] conjI)
  from fl d sampleCollation_lexOn [of "''PT-1000''" "''PT-1001''"] A g B
  show ?thesis by (intro conjI)
qed

section \<open>Oxygen values of seed and step\<close>

text \<open>
  C9, as the code has it. A seed reading's oxygen saturation lies in \<open>[80, 100]\<close>; for a
  draw \<open>r\<close> in \<open>[0, 1)\<close> it is \<open>base + (4r - 2)\<close> with no rounding, an integer only when
  \<open>4r\<close> is one. A step's oxygen saturation lies in \<open>[60, 100]\<close> and is an integer when the
  previous value is an integer or missing.
\<close>

theorem oxygen_values:
  "80 \<le> spo2 (seedReading rnd t fmt i idx) \<and> spo2 (seedReading rnd t fmt i idx) \<le> 100
   \<and> (0 \<le> rnd (24 * i + 3 * idx) \<and> rnd (24 * i + 3 * idx) < 1 \<longrightarrow>
        spo2 (seedReading rnd t fmt i idx)
          = 95 - real (i mod 4) + (rnd (24 * i + 3 * idx) * 4 - 2)
        \<and> (isInteger (spo2 (seedReading rnd t fmt i idx))
             \<longleftrightarrow> isInteger (rnd (24 * i + 3 * idx) * 4)))
   \<and> (\<forall>p\<in>set (makeInitialPatients rnd now fmt).
        \<exists>h. history p = Some h \<and> (\<forall>v\<in>set h. 80 \<le> spo2 v \<and> spo2 v \<le> 100))
   \<and> 60 \<le> spo2 (newPoint da db dc l p) \<and> spo2 (newPoint da db dc l p) \<le> 100
   \<and> ((case vitals p of None \<Rightarrow> True | Some v \<Rightarrow> isInteger (spo2 v))
        \<longrightarrow> isInteger (spo2 (newPoint da db dc l p)))"
proof -
  have seed: "\<forall>p\<in>set (makeInitialPatients rnd now fmt).
        \<exists>h. history p = Some h \<and> (\<forall>v\<in>set h. 80 \<le> spo2 v \<and> spo2 v \<le> 100)"
    using seedReading_spo2_range
    by (auto simp: makeInitialPatients_set seedPatient_def Let_def)
  have ex: "0 \<le> rnd (24 * i + 3 * idx) \<and> rnd (24 * i + 3 * idx) < 1 \<longrightarrow>
        spo2 (seedReading rnd t fmt i idx)
          = 95 - real (i mod 4) + (rnd (24 * i + 3 * idx) * 4 - 2)
        \<and> (isInteger (spo2 (seedReading rnd t fmt i idx))
             \<longleftrightarrow> isInteger (rnd (24 * i + 3 * idx) * 4))"
    using seedReading_spo2_exact [of rnd i idx t fmt] isInteger_shift [OF isInteger_base, of i "rnd (24 * i + 3 * idx) * 4"]
    by simp
  have rng: "60 \<le> spo2 (newPoint da db dc l p) \<and> spo2 (newPoint da db dc l p) \<le> 100"
    using newPoint_inClamps [of da db dc l p] by (simp add: inClamps_def)
  from seed ex rng seedReading_spo2_range [of rnd t fmt i idx] newPoint_spo2_integer [of p da db dc l]
  show ?thesis by blast
qed

theorem oxygen_values_witness:
  "(0::real) \<le> sampleDraws 0 \<and> sampleDraws 0 < 1
   \<and> spo2 (seedReading sampleDraws 0 sampleFmt 0 0) = 471 / 5
   \<and> isInteger (spo2 (sampleReading 95))
   \<and> isInteger (spo2 (newPoint (3/10) (3/10) (3/10) ''12:00:00'' (samplePatient ''PT-1000'' 95)))"
proof -
  note t = oxygen_values [where rnd = sampleDraws and t = 0 and fmt = sampleFmt and i = 0 and idx = 0
     and now = sampleClock and da = "3/10" and db = "3/10" and dc = "3/10" and l = "''12:00:00''"
     and p = "samplePatient ''PT-1000'' 95"]
  have d: "(0::real) \<le> sampleDraws 0 \<and> sampleDraws 0 < 1" by (simp add: sampleDraws_def)
  have i: "isInteger (spo2 (sampleReading 95))" by (simp add: sampleReading_def isInteger_def)
  then have i': "case vitals (samplePatient ''PT-1000'' 95) of None \<Rightarrow> True | Some v \<Rightarrow> isInteger (spo2 v)"
    by (simp add: samplePatient_def)
  from t d have "spo2 (seedReading sampleDraws 0 sampleFmt 0 0) = 95 - real (0 mod 4) + (sampleDraws (24 * 0 + 3 * 0) * 4 - 2)"
    by simp
  then have "spo2 (seedReading sampleDraws 0 sampleFmt 0 0) = 471 / 5" by (simp add: sampleDraws_def)
  moreover from t i' have "isInteger (spo2 (newPoint (3/10) (3/10) (3/10) ''12:00:00'' (samplePatient ''PT-1000'' 95)))"
    by blast
  ultimately show ?thesis using d i by simp
qed

text \<open>
  With all draws equal to \<open>0.3\<close>, the first seed reading of the first patient has the oxygen
  saturation \<open>94.2\<close>, which is not an integer.
\<close>

theorem seed_oxygen_not_integer:
  "history (seedPatient sampleDraws sampleClock sampleFmt 0)
     = Some (map (seedReading sampleDraws (sampleClock 0) sampleFmt 0) [0..<8])
   \<and> seedPatient sampleDraws sampleClock sampleFmt 0
       = makeInitialPatients sampleDraws sampleClock sampleFmt ! 0
   \<and> spo2 (seedReading sampleDraws (sampleClock 0) sampleFmt 0 0) = 471 / 5
   \<and> \<not> isInteger (spo2 (seedReading sampleDraws (sampleClock 0) sampleFmt 0 0))"
proof -
  have a: "spo2 (seedReading sampleDraws (sampleClock 0) sampleFmt 0 0) = 471 / 5"
    by (simp add: seedReading_def sampleDraws_def Let_def)
  have b: "\<not> isInteger (471 / 5)" by (simp add: isInteger_def)
  have c: "seedPatient sampleDraws sampleClock sampleFmt 0
       = makeInitialPatients sampleDraws sampleClock sampleFmt ! 0"
    by (simp add: makeInitialPatients_def nth_map [of 0 "[0..<10]"] del: upt_rec_numeral)
  have d: "history (seedPatient sampleDraws sampleClock sampleFmt 0)
     = Some (map (seedReading sampleDraws (sampleClock 0) sampleFmt 0) [0..<8])"
    by (simp add: seedPatient_def Let_def del: upt_rec_numeral)
  from b have b': "\<not> isInteger (spo2 (seedReading sampleDraws (sampleClock 0) sampleFmt 0 0))"
    by (subst a) (rule b)
  from a b' c d show ?thesis by (intro conjI)
qed

section \<open>A patient without vitals or history\<close>



section \<open>Hydration of stored metadata\<close>

text \<open>
  C6, as the code has it. When the stored value is an object whose per-patient objects have no
  property other than \<^verbatim>\<open>notes\<close> and \<^verbatim>\<open>ward\<close>, every other property of a hydrated patient,
  the identifier among them, is the seed's, and \<^verbatim>\<open>notes\<close> and \<^verbatim>\<open>ward\<close> are the stored ones
  where the stored object has them and the seed's otherwise.
\<close>

theorem hydration_overrides:
  assumes "store STORAGE_KEY = Some (Wellformed meta)" "metaShaped meta" "i < 10"
  shows "(\<forall>k. k \<noteq> ''notes'' \<and> k \<noteq> ''ward'' \<longrightarrow>
            (initialPatients store rnd now fmt ! i) k = toObject (seedPatient rnd now fmt i) k)
         \<and> (initialPatients store rnd now fmt ! i) ''id'' = Some (JStr (seedId i))
         \<and> (\<forall>k. k = ''notes'' \<or> k = ''ward'' \<longrightarrow>
              (initialPatients store rnd now fmt ! i) k
                = (case storedField meta (seedId i) k of
                     Some v \<Rightarrow> Some v
                   | None \<Rightarrow> toObject (seedPatient rnd now fmt i) k))"
proof -
  from assms(2) obtain kvs where meta: "meta = JObj kvs"
    by (auto simp: metaShaped_def split: json.splits)
  let ?s = "toObject (seedPatient rnd now fmt i)"
  let ?o = "initialPatients store rnd now fmt ! i"
  have o: "?o = (case props kvs (seedId i) of None \<Rightarrow> ?s | Some x \<Rightarrow> ?s ++ ownProps x)"
    using assms(1) assms(3) unfolding meta by (rule initial_object_nth [where store = store])
  have other: "\<forall>k. k \<noteq> ''notes'' \<and> k \<noteq> ''ward'' \<longrightarrow> ?o k = ?s k"
  proof (intro allI impI)
    fix k assume k: "k \<noteq> ''notes'' \<and> k \<noteq> ''ward''"
    show "?o k = ?s k"
    proof (cases "props kvs (seedId i)")
      case None
      with o show ?thesis by simp
    next
      case (Some x)
      from assms(2) meta have "metaShaped (JObj kvs)" by simp
      from metaShaped_entry [OF this Some] k have "ownProps x k = None" by simp
      with o Some show ?thesis by (simp add: map_add_def)
    qed
  qed
  then have "?o ''id'' = ?s ''id''" by simp
  then have ident: "?o ''id'' = Some (JStr (seedId i))"
    by (simp add: toObject_id seedPatient_id)
  have md: "\<forall>k. k = ''notes'' \<or> k = ''ward'' \<longrightarrow>
      ?o k = (case storedField meta (seedId i) k of Some v \<Rightarrow> Some v | None \<Rightarrow> ?s k)"
    unfolding o meta
    by (auto simp: storedField_def map_add_def split: option.splits)
  from other ident md show ?thesis by blast
qed

theorem hydration_overrides_witness:
  "storeShaped STORAGE_KEY = Some (Wellformed (JObj [(''PT-1001'',
        JObj [(''notes'', JStr ''check at noon''), (''ward'', JStr ''ICU'')])]))
   \<and> metaShaped (JObj [(''PT-1001'',
        JObj [(''notes'', JStr ''check at noon''), (''ward'', JStr ''ICU'')])])
   \<and> (1::nat) < 10
   \<and> (initialPatients storeShaped sampleDraws sampleClock sampleFmt ! 1) ''id'' = Some (JStr ''PT-1001'')
   \<and> (initialPatients storeShaped sampleDraws sampleClock sampleFmt ! 1) ''notes''
        = Some (JStr ''check at noon'')
   \<and> (initialPatients storeShaped sampleDraws sampleClock sampleFmt ! 1) ''ward'' = Some (JStr ''ICU'')
   \<and> (initialPatients storeShaped sampleDraws sampleClock sampleFmt ! 1) ''name''
        = Some (JStr ''Patient 2'')"
proof -
  let ?m = "JObj [(''PT-1001'', JObj [(''notes'', JStr ''check at noon''), (''ward'', JStr ''ICU'')])]"
  have a: "storeShaped STORAGE_KEY = Some (Wellformed ?m)" by (simp add: storeShaped_def)
  have b: "metaShaped ?m" by (simp add: metaShaped_def)
  have c: "(1::nat) < 10" by simp
  let ?o = "initialPatients storeShaped sampleDraws sampleClock sampleFmt ! 1"
  note t = hydration_overrides [where store = storeShaped and rnd = sampleDraws and now = sampleClock
      and fmt = sampleFmt, OF a b c, unfolded seedId_1]
  have sf: "storedField ?m ''PT-1001'' ''notes'' = Some (JStr ''check at noon'')"
    "storedField ?m ''PT-1001'' ''ward'' = Some (JStr ''ICU'')"
    by (simp_all add: storedField_def props_def)
  note i = t [THEN conjunct2, THEN conjunct1]
  have pn: "''notes'' = ''notes'' \<or> ''notes'' = ''ward''" by simp
  have pw: "''ward'' = ''notes'' \<or> ''ward'' = ''ward''" by simp
  note n = t [THEN conjunct2, THEN conjunct2, THEN spec, THEN mp, OF pn, unfolded sf option.case]
  note w = t [THEN conjunct2, THEN conjunct2, THEN spec, THEN mp, OF pw, unfolded sf option.case]
  have po: "''name'' \<noteq> ''notes'' \<and> ''name'' \<noteq> ''ward''" by simp
  note nm0 = t [THEN conjunct1, THEN spec, THEN mp, OF po]
  have "toObject (seedPatient sampleDraws sampleClock sampleFmt 1) ''name'' = Some (JStr ''Patient 2'')"
    by (simp add: toObject_def seedPatient_def Let_def decimal.simps)
  with nm0 have nm: "?o ''name'' = Some (JStr ''Patient 2'')" by simp
  from a b c i n w nm show ?thesis by (intro conjI)
qed

text \<open>
  The spread copies every property of the stored object: a stored \<^verbatim>\<open>{"PT-1000": {"id": "PT-7"}}\<close>
  changes the identifier of the first patient.
\<close>

theorem hydration_changes_id:
  "toObject (seedPatient sampleDraws sampleClock sampleFmt 0) ''id'' = Some (JStr ''PT-1000'')
   \<and> (initialPatients storeWithId sampleDraws sampleClock sampleFmt ! 0) ''id'' = Some (JStr ''PT-7'')"
proof -
  have a: "storeWithId STORAGE_KEY = Some (Wellformed (JObj [(''PT-1000'', JObj [(''id'', JStr ''PT-7'')])]))"
    by (simp add: storeWithId_def)
  have b: "(0::nat) < 10" by simp
  show ?thesis
    unfolding initial_object_nth [where store = storeWithId, OF a b]
    by (simp add: toObject_id seedPatient_id seedId_0 props_def)
qed

section \<open>Fallback to the seed\<close>

text \<open>
  C7, as the code has it. The initializer always returns ten patients. Unless the stored value
  parses to an object (so when it is absent, empty, not valid JSON, \<^verbatim>\<open>null\<close>, a boolean, a
  number, a string or an array) they are exactly the seed. When it parses to an object, a patient
  without an entry under its identifier is the seed's, and an entry is merged as it is, whatever
  its shape.
\<close>

theorem hydration_fallback:
  "length (initialPatients store rnd now fmt) = 10
   \<and> (\<not> (\<exists>kvs. store STORAGE_KEY = Some (Wellformed (JObj kvs))) \<longrightarrow>
        initialPatients store rnd now fmt = map toObject (makeInitialPatients rnd now fmt))
   \<and> (store STORAGE_KEY = Some (Wellformed (JObj kvs)) \<and> i < 10 \<longrightarrow>
        initialPatients store rnd now fmt ! i
          = (case props kvs (seedId i) of
               None \<Rightarrow> toObject (seedPatient rnd now fmt i)
             | Some x \<Rightarrow> toObject (seedPatient rnd now fmt i) ++ ownProps x))"
proof -
  have a: "\<not> (\<exists>kvs. store STORAGE_KEY = Some (Wellformed (JObj kvs))) \<longrightarrow>
        initialPatients store rnd now fmt = map toObject (makeInitialPatients rnd now fmt)"
    unfolding initialPatients_def using hydrate_not_object [where store = store] seed_ids by blast
  have b: "store STORAGE_KEY = Some (Wellformed (JObj kvs)) \<and> i < 10 \<longrightarrow>
        initialPatients store rnd now fmt ! i
          = (case props kvs (seedId i) of
               None \<Rightarrow> toObject (seedPatient rnd now fmt i)
             | Some x \<Rightarrow> toObject (seedPatient rnd now fmt i) ++ ownProps x)"
    using initial_object_nth [where store = store] by blast
  from a b initial_length show ?thesis by blast
qed

theorem hydration_fallback_witness:
  "\<not> (\<exists>kvs. [STORAGE_KEY \<mapsto> Malformed] STORAGE_KEY = Some (Wellformed (JObj kvs)))
   \<and> initialPatients [STORAGE_KEY \<mapsto> Malformed] sampleDraws sampleClock sampleFmt
       = map toObject (makeInitialPatients sampleDraws sampleClock sampleFmt)
   \<and> \<not> (\<exists>kvs. [STORAGE_KEY \<mapsto> Wellformed JNull] STORAGE_KEY = Some (Wellformed (JObj kvs)))
   \<and> initialPatients [STORAGE_KEY \<mapsto> Wellformed JNull] sampleDraws sampleClock sampleFmt
       = map toObject (makeInitialPatients sampleDraws sampleClock sampleFmt)
   \<and> \<not> (\<exists>kvs. Map.empty STORAGE_KEY = Some (Wellformed (JObj kvs)))
   \<and> initialPatients Map.empty sampleDraws sampleClock sampleFmt
       = map toObject (makeInitialPatients sampleDraws sampleClock sampleFmt)
   \<and> storeShaped STORAGE_KEY = Some (Wellformed (JObj [(''PT-1001'',
        JObj [(''notes'', JStr ''check at noon''), (''ward'', JStr ''ICU'')])]))
   \<and> (0::nat) < 10
   \<and> initialPatients storeShaped sampleDraws sampleClock sampleFmt ! 0
       = toObject (seedPatient sampleDraws sampleClock sampleFmt 0)"
proof -
  have a: "\<not> (\<exists>kvs. [STORAGE_KEY \<mapsto> Malformed] STORAGE_KEY = Some (Wellformed (JObj kvs)))"
    by simp
  have b: "\<not> (\<exists>kvs. [STORAGE_KEY \<mapsto> Wellformed JNull] STORAGE_KEY = Some (Wellformed (JObj kvs)))"
    by simp
  have c: "\<not> (\<exists>kvs. Map.empty STORAGE_KEY = Some (Wellformed (JObj kvs)))"
    by simp
  have d: "storeShaped STORAGE_KEY = Some (Wellformed (JObj [(''PT-1001'',
        JObj [(''notes'', JStr ''check at noon''), (''ward'', JStr ''ICU'')])]))"
    by (simp add: storeShaped_def)
  have e: "(0::nat) < 10" by simp
  have n: "props [(''PT-1001'', JObj [(''notes'', JStr ''check at noon''), (''ward'', JStr ''ICU'')])]
      ''PT-1000'' = None"
    by (simp add: props_def)
  note ta = hydration_fallback [where store = "[STORAGE_KEY \<mapsto> Malformed]" and rnd = sampleDraws
      and now = sampleClock and fmt = sampleFmt, THEN conjunct2, THEN conjunct1, THEN mp, OF a]
  note tb = hydration_fallback [where store = "[STORAGE_KEY \<mapsto> Wellformed JNull]" and rnd = sampleDraws
      and now = sampleClock and fmt = sampleFmt, THEN conjunct2, THEN conjunct1, THEN mp, OF b]
  note tc = hydration_fallback [where store = "Map.empty" and rnd = sampleDraws
      and now = sampleClock and fmt = sampleFmt, THEN conjunct2, THEN conjunct1, THEN mp, OF c]
  note td = hydration_fallback [where store = storeShaped and rnd = sampleDraws
      and now = sampleClock and fmt = sampleFmt and i = 0, THEN conjunct2, THEN conjunct2, THEN mp,
      OF conjI [OF d e], unfolded seedId_0 n option.case]
  from a ta b tb c tc d e td show ?thesis by (intro conjI)
qed

text \<open>
  A stored \<^verbatim>\<open>{"PT-1000": {"notes": 7}}\<close> is not of the expected shape, and the first patient's
  notes become the number 7 instead of the seed's empty string.
\<close>

theorem hydration_keeps_wrong_shape:
  "(map toObject (makeInitialPatients sampleDraws sampleClock sampleFmt) ! 0) ''notes''
      = Some (JStr '''')
   \<and> (initialPatients storeWithNumber sampleDraws sampleClock sampleFmt ! 0) ''notes''
      = Some (JNum 7)"
proof -
  have a: "storeWithNumber STORAGE_KEY
      = Some (Wellformed (JObj [(''PT-1000'', JObj [(''notes'', JNum 7)])]))"
    by (simp add: storeWithNumber_def)
  have b: "(0::nat) < 10" by simp
  have "(map toObject (makeInitialPatients sampleDraws sampleClock sampleFmt) ! 0) ''notes''
      = Some (JStr '''')"
    by (simp add: nth_map seed_length seed_nth toObject_notes seedPatient_def Let_def
        del: upt_rec_numeral)
  moreover have "(initialPatients storeWithNumber sampleDraws sampleClock sampleFmt ! 0) ''notes''
      = Some (JNum 7)"
    unfolding initial_object_nth [where store = storeWithNumber, OF a b]
    by (simp add: seedId_0 props_def)
  ultimately show ?thesis by (intro conjI)
qed

section \<open>Round trip of notes and ward\<close>

text \<open>
  C8. For a patient of the collection whose identifier is a seed identifier: after its notes
  and ward are updated, the metadata of the collection written to the store, and a fresh seed
  hydrated from that store, the patient with that identifier has the same notes and ward. The
  same holds for any collection in which the patients of that identifier carry these notes and
  ward.
\<close>

theorem metadata_roundtrip:
  assumes "i < 10" "\<exists>p\<in>set ps. id' p = seedId i"
  shows "(let ps' = updateMeta (seedId i) \<lparr> patch_notes = None, patch_ward = Some w \<rparr>
                     (updateMeta (seedId i) \<lparr> patch_notes = Some n, patch_ward = None \<rparr> ps);
              store' = persistMeta ps' store;
              ob = initialPatients store' rnd now fmt ! i
          in ob ''id'' = Some (JStr (seedId i))
             \<and> ob ''notes'' = Some (JStr n)
             \<and> ob ''ward'' = Some (JStr w))
         \<and> ((\<forall>p\<in>set ps. id' p = seedId i \<longrightarrow> notes' p = n \<and> ward p = w) \<longrightarrow>
              (initialPatients (persistMeta ps store) rnd now fmt ! i) ''notes'' = Some (JStr n)
              \<and> (initialPatients (persistMeta ps store) rnd now fmt ! i) ''ward'' = Some (JStr w))"
proof -
  let ?ps' = "updateMeta (seedId i) \<lparr> patch_notes = None, patch_ward = Some w \<rparr>
                     (updateMeta (seedId i) \<lparr> patch_notes = Some n, patch_ward = None \<rparr> ps)"
  from assms(2) obtain p0 where p0: "p0 \<in> set ps" "id' p0 = seedId i" by blast
  from p0(1) have "id' p0 \<in> id' ` set ps" by (rule imageI)
  with p0(2) have "seedId i \<in> set (map id' ps)" by simp
  then have "seedId i \<in> set (map id' ?ps')" by (simp only: updateMeta_ids)
  then obtain q where "q \<in> set ?ps'" "seedId i = id' q" unfolding set_map by (rule imageE)
  then have ex: "\<exists>p\<in>set ?ps'. id' p = seedId i" by (intro bexI [of _ q]) simp_all
  have al: "\<forall>p\<in>set ?ps'. id' p = seedId i \<longrightarrow> notes' p = n \<and> ward p = w"
    by (auto simp: updateMeta_def spreadPatch_def Let_def)
  from reload_fields [OF assms(1) ex al, of store rnd now fmt]
    reload_fields [OF assms(1) assms(2), of n w store rnd now fmt]
  show ?thesis by (simp add: Let_def)
qed

theorem metadata_roundtrip_witness:
  "(0::nat) < 10
   \<and> samplePatient ''PT-1000'' 95 \<in> set [samplePatient ''PT-1000'' 95, samplePatient ''PT-1001'' 88]
   \<and> id' (samplePatient ''PT-1000'' 95) = seedId 0
   \<and> (initialPatients
         (persistMeta
            (updateMeta ''PT-1000'' \<lparr> patch_notes = None, patch_ward = Some ''ICU'' \<rparr>
               (updateMeta ''PT-1000'' \<lparr> patch_notes = Some ''on oxygen'', patch_ward = None \<rparr>
                  [samplePatient ''PT-1000'' 95, samplePatient ''PT-1001'' 88]))
            Map.empty)
         sampleDraws sampleClock sampleFmt ! 0) ''notes'' = Some (JStr ''on oxygen'')
   \<and> (initialPatients
         (persistMeta
            (updateMeta ''PT-1000'' \<lparr> patch_notes = None, patch_ward = Some ''ICU'' \<rparr>
               (updateMeta ''PT-1000'' \<lparr> patch_notes = Some ''on oxygen'', patch_ward = None \<rparr>
                  [samplePatient ''PT-1000'' 95, samplePatient ''PT-1001'' 88]))
            Map.empty)
         sampleDraws sampleClock sampleFmt ! 0) ''ward'' = Some (JStr ''ICU'')"
proof -
  let ?ps = "[samplePatient ''PT-1000'' 95, samplePatient ''PT-1001'' 88]"
  have a: "(0::nat) < 10" by simp
  have m: "samplePatient ''PT-1000'' 95 \<in> set ?ps" by simp
  have e: "id' (samplePatient ''PT-1000'' 95) = seedId 0" by (simp add: samplePatient_def seedId_0)
  from m e have b: "\<exists>p\<in>set ?ps. id' p = seedId 0" by (rule bexI [rotated])
  note t = metadata_roundtrip [OF a b, where w = "''ICU''" and n = "''on oxygen''"
      and store = Map.empty and rnd = sampleDraws and now = sampleClock and fmt = sampleFmt,
      THEN conjunct1, unfolded Let_def seedId_0]
  from a m e t show ?thesis by (intro conjI) (elim conjE, assumption)+
qed

end
